theory Spec2Isabelle
  imports Main
begin

section \<open>JavaScript values and strings\<close>

text \<open>
  The source file holds three variants of the same program, one after the other:
  variant A (lines 1-260), variant B (lines 261-469) and variant C (lines 470-650).
  Each function below names the variant it is taken from; where two variants share a
  function body word for word, one definition stands for both.

  A JavaScript string is modelled as a \<open>string\<close>, one \<open>char\<close> per code unit, so
  the model covers the strings whose code units are below 256. Console logging has no
  influence on any value or on control flow and is left out.
\<close>

text \<open>
  The values that can reach a field of a shipment record: \<open>undefined\<close>, a string, a
  built-in function inherited from \<open>Object.prototype\<close> (named), or the object
  \<open>Object.prototype\<close> itself.
\<close>

datatype jsval =
    JSUndefined
  | JSString string
  | JSNative string
  | JSObjectPrototype

datatype jserror =
    Error string
  | TypeError
  | SyntaxError string
  | HttpError nat string

fun truthy :: "jsval \<Rightarrow> bool" where
  "truthy JSUndefined = False"
| "truthy (JSString s) = (s \<noteq> [])"
| "truthy (JSNative f) = True"
| "truthy JSObjectPrototype = True"

text \<open>\<open>a || b\<close>\<close>

definition js_or :: "jsval \<Rightarrow> jsval \<Rightarrow> jsval" where
  "js_or a b = (if truthy a then a else b)"

text \<open>The string a template literal \<open>`${v}`\<close> inserts for a value.\<close>

fun toString :: "jsval \<Rightarrow> string" where
  "toString JSUndefined = ''undefined''"
| "toString (JSString s) = s"
| "toString (JSNative f) = ''function '' @ f @ ''() { [native code] }''"
| "toString JSObjectPrototype = ''[object Object]''"

text \<open>
  The properties every object literal inherits from \<open>Object.prototype\<close>: eleven
  built-in functions and the accessor \<open>__proto__\<close>, whose getter returns
  \<open>Object.prototype\<close>.
\<close>

definition objectPrototypeFunctions :: "string list" where
  "objectPrototypeFunctions =
     [''constructor'', ''__defineGetter__'', ''__defineSetter__'', ''hasOwnProperty'',
      ''__lookupGetter__'', ''__lookupSetter__'', ''isPrototypeOf'',
      ''propertyIsEnumerable'', ''toString'', ''valueOf'', ''toLocaleString'']"

definition objectPrototypeGet :: "string \<Rightarrow> jsval" where
  "objectPrototypeGet k =
     (if k = ''__proto__'' then JSObjectPrototype
      else if k = ''constructor'' then JSNative ''Object''
      else if k \<in> set objectPrototypeFunctions then JSNative k
      else JSUndefined)"

text \<open>
  \<open>table[key]\<close> on an object literal whose own properties are the string pairs
  \<open>table\<close>: the own property if there is one, the inherited one otherwise. The key is
  converted to a string first, so \<open>undefined\<close> reads the property named
  \<open>undefined\<close>.
\<close>

definition literalGet :: "(string \<times> string) list \<Rightarrow> jsval \<Rightarrow> jsval" where
  "literalGet table key =
     (case map_of table (toString key) of
        Some v \<Rightarrow> JSString v
      | None \<Rightarrow> objectPrototypeGet (toString key))"

subsection \<open>String operations\<close>

text \<open>\<open>\d\<close>: the ten ASCII digits.\<close>

definition isDigit :: "char \<Rightarrow> bool" where
  "isDigit c = (c \<in> set ''0123456789'')"

text \<open>
  \<open>\s\<close> and the characters \<open>trim\<close> removes, among the code units below 256:
  tab, line feed, vertical tab, form feed, carriage return, space, no-break space.
\<close>

definition isSpace :: "char \<Rightarrow> bool" where
  "isSpace c = (c \<in> set [CHR 0x09, CHR 0x0A, CHR 0x0B, CHR 0x0C, CHR 0x0D, CHR 0x20, CHR 0xA0])"

definition trim :: "string \<Rightarrow> string" where
  "trim s = rev (dropWhile isSpace (rev (dropWhile isSpace s)))"

text \<open>\<open>s.split(c)\<close> for a one-character separator: never the empty list.\<close>

fun split_char :: "char \<Rightarrow> string \<Rightarrow> string list" where
  "split_char sep [] = [[]]"
| "split_char sep (c # cs) =
     (if c = sep then [] # split_char sep cs
      else (case split_char sep cs of
              [] \<Rightarrow> [[c]]
            | t # ts \<Rightarrow> (c # t) # ts))"

text \<open>
  \<open>s.split(/[...]+/)\<close> for a regular expression that matches one or more characters
  of a class \<open>P\<close>: the pieces between maximal runs of \<open>P\<close> characters, with an empty
  first piece when \<open>s\<close> starts with a run and an empty last piece when it ends with
  one. \<open>acc\<close> is the current piece, reversed.
\<close>

function split_runs :: "(char \<Rightarrow> bool) \<Rightarrow> string \<Rightarrow> string \<Rightarrow> string list" where
  "split_runs P acc [] = [rev acc]"
| "split_runs P acc (c # cs) =
     (if P c then rev acc # split_runs P [] (dropWhile P cs)
      else split_runs P (c # acc) cs)"
  by pat_completeness auto
termination
  by (relation "measure (\<lambda>(P, acc, s). length s)")
     (auto simp: le_imp_less_Suc length_dropWhile_le)

text \<open>\<open>xs.find(p)\<close>: the first element satisfying \<open>p\<close>, or \<open>undefined\<close>.\<close>

fun find_first :: "('a \<Rightarrow> bool) \<Rightarrow> 'a list \<Rightarrow> 'a option" where
  "find_first p [] = None"
| "find_first p (x # xs) = (if p x then Some x else find_first p xs)"

text \<open>\<open>xs[i]\<close>: \<open>undefined\<close> out of range.\<close>

fun index :: "'a list \<Rightarrow> nat \<Rightarrow> 'a option" where
  "index [] i = None"
| "index (x # xs) 0 = Some x"
| "index (x # xs) (Suc i) = index xs i"

section \<open>Row Transformer\<close>

type_synonym row = "string \<rightharpoonup> string"

record shipment =
  source_id :: string
  tracking_number :: jsval
  carrier_code :: string
  shipment_method :: jsval

definition shipmentMethodMap :: "(string \<times> string) list" where
  "shipmentMethodMap = [(''G'', ''Ground''), (''3RD'', ''3 Day Select''), (''2ND'', ''2nd Day Air'')]"

definition storeIdMap :: "(string \<times> string) list" where
  "storeIdMap = [(''RTSCS'', ''68125''), (''RTFMS'', ''118741''), (''HERO'', ''14077'')]"

text \<open>\<open>item.name\<close> on a parsed row: its own property, or \<open>undefined\<close>.\<close>

definition field :: "row \<Rightarrow> string \<Rightarrow> jsval" where
  "field item name = (case item name of None \<Rightarrow> JSUndefined | Some v \<Rightarrow> JSString v)"

text \<open>
  Variant A, lines 94-97: split on runs of \<open>/\<close>, white space and \<open>-\<close>, take the
  first piece that is all digits (\<open>/^\d+$/\<close>), trim it; \<open>undefined\<close> when there is
  none.
\<close>

definition isSeparator :: "char \<Rightarrow> bool" where
  "isSeparator c = (c = CHR ''/'' \<or> isSpace c \<or> c = CHR ''-'')"

definition allDigits :: "string \<Rightarrow> bool" where
  "allDigits part = (part \<noteq> [] \<and> list_all isDigit part)"

definition sanitizedValue_A :: "string \<Rightarrow> jserror + jsval" where
  "sanitizedValue_A po =
     (case find_first allDigits (split_runs isSeparator [] po) of
        None \<Rightarrow> Inr JSUndefined
      | Some part \<Rightarrow> Inr (JSString (trim part)))"

text \<open>
  Variants B and C, lines 352 and 561:
  \<open>item['Cust_PO_Number'].split('/')[0].replace(/\D/g, '').trim()\<close>.
\<close>

definition sanitizedValue_B :: "string \<Rightarrow> jserror + jsval" where
  "sanitizedValue_B po =
     (case index (split_char CHR ''/'' po) 0 of
        None \<Rightarrow> Inl TypeError
      | Some seg \<Rightarrow> Inr (JSString (trim (filter isDigit seg))))"

text \<open>
  The destructuring
  \<open>let [carrier_code = "", shipment_method = ""] = (item.Shipped_VIA || "").split('-').map(part => part.trim())\<close>.
\<close>

definition shippedViaParts :: "row \<Rightarrow> string \<times> string" where
  "shippedViaParts item =
     (let parts = map trim (split_char CHR ''-'' (toString (js_or (field item ''Shipped_VIA'') (JSString []))))
      in (case index parts 0 of None \<Rightarrow> [] | Some p \<Rightarrow> p,
          case index parts 1 of None \<Rightarrow> [] | Some p \<Rightarrow> p))"

text \<open>
  The record pushed for a row whose order number \<open>sanitized\<close> passed the test
  (lines 100-113; lines 355-365 and 564-574 compute the same values, with
  \<open>mappedStoreId\<close> already holding \<open>storeIdMap[...] || item.Customer_Number\<close>).
\<close>

definition shipmentOf :: "row \<Rightarrow> string \<Rightarrow> shipment" where
  "shipmentOf item sanitized =
     (let (carrier, method0) = shippedViaParts item;
          method1 = js_or (literalGet shipmentMethodMap (JSString method0)) (JSString method0);
          mappedStoreId = literalGet storeIdMap (field item ''Customer_Number'')
      in \<lparr> source_id = toString (js_or mappedStoreId (field item ''Customer_Number'')) @ ''-'' @ sanitized,
           tracking_number = field item ''Tracking_Number'',
           carrier_code = carrier,
           shipment_method = js_or method1 (JSString ''Residential'') \<rparr>)"

text \<open>
  One step of the \<open>reduce\<close>: the state is the output list \<open>formattedData\<close> and the
  set \<open>uniqueOrderIds\<close>. The extraction rule is the only difference between the
  variants and is a parameter.
\<close>

definition formatStep ::
  "(string \<Rightarrow> jserror + jsval) \<Rightarrow> shipment list \<times> string set \<Rightarrow> row \<Rightarrow> jserror + shipment list \<times> string set" where
  "formatStep extract st item =
     (case st of (formattedData, uniqueOrderIds) \<Rightarrow>
        if truthy (field item ''Cust_PO_Number'') then
          (case extract (toString (field item ''Cust_PO_Number'')) of
             Inl e \<Rightarrow> Inl e
           | Inr sanitizedValue \<Rightarrow>
               if truthy sanitizedValue \<and> toString sanitizedValue \<notin> uniqueOrderIds
               then Inr (formattedData @ [shipmentOf item (toString sanitizedValue)],
                         insert (toString sanitizedValue) uniqueOrderIds)
               else Inr (formattedData, uniqueOrderIds))
        else Inr (formattedData, uniqueOrderIds))"

fun formatLoop ::
  "(string \<Rightarrow> jserror + jsval) \<Rightarrow> shipment list \<times> string set \<Rightarrow> row list \<Rightarrow> jserror + shipment list \<times> string set" where
  "formatLoop extract st [] = Inr st"
| "formatLoop extract st (item # items) =
     (case formatStep extract st item of
        Inl e \<Rightarrow> Inl e
      | Inr st' \<Rightarrow> formatLoop extract st' items)"

definition formatWith :: "(string \<Rightarrow> jserror + jsval) \<Rightarrow> row list \<Rightarrow> jserror + shipment list" where
  "formatWith extract results =
     (case formatLoop extract ([], {}) results of
        Inl e \<Rightarrow> Inl e
      | Inr (formattedData, uniqueOrderIds) \<Rightarrow> Inr formattedData)"

text \<open>Variant A, lines 86-119.\<close>

definition formatCannonHillData_A :: "row list \<Rightarrow> jserror + shipment list" where
  "formatCannonHillData_A results = formatWith sanitizedValue_A results"

text \<open>Variants B and C, lines 345-371 and 554-580.\<close>

definition formatCannonHillData_B :: "row list \<Rightarrow> jserror + shipment list" where
  "formatCannonHillData_B results = formatWith sanitizedValue_B results"

subsection \<open>The order number of a row and of a record\<close>

text \<open>
  The order number a row yields under an extraction rule: \<open>None\<close> when the row has no
  or an empty \<open>Cust_PO_Number\<close>, or when the extracted value is not truthy.
\<close>

definition orderNumberOf :: "(string \<Rightarrow> jserror + jsval) \<Rightarrow> row \<Rightarrow> string option" where
  "orderNumberOf extract item =
     (if truthy (field item ''Cust_PO_Number'') then
        (case extract (toString (field item ''Cust_PO_Number'')) of
           Inl e \<Rightarrow> None
         | Inr v \<Rightarrow> if truthy v then Some (toString v) else None)
      else None)"

text \<open>The part of a string after its last \<open>-\<close>, and the order-number component of a record.\<close>

definition afterLastDash :: "string \<Rightarrow> string" where
  "afterLastDash s = rev (takeWhile (\<lambda>c. c \<noteq> CHR ''-'') (rev s))"

definition orderComponent :: "shipment \<Rightarrow> string" where
  "orderComponent r = afterLastDash (source_id r)"

text \<open>
  The extraction rule in the words of the specification: the first segment of the value
  split on \<open>/\<close>, stripped of every non-digit character, then trimmed.
\<close>

definition firstSegment :: "string \<Rightarrow> string" where
  "firstSegment s = takeWhile (\<lambda>c. c \<noteq> CHR ''/'') s"

definition extractOrderNumber :: "string \<Rightarrow> string" where
  "extractOrderNumber po = trim (filter isDigit (firstSegment po))"

text \<open>
  First occurrence wins, in the words of the specification: row \<open>i\<close> contributes a record
  when it yields an order number that no earlier row yields; the emitted rows are those
  rows, in input order.
\<close>

definition firstOccurrence :: "(string \<Rightarrow> jserror + jsval) \<Rightarrow> row list \<Rightarrow> nat \<Rightarrow> bool" where
  "firstOccurrence extract rows i =
     (case orderNumberOf extract (rows ! i) of
        None \<Rightarrow> False
      | Some n \<Rightarrow> Some n \<notin> set (map (orderNumberOf extract) (take i rows)))"

definition emittedRows :: "(string \<Rightarrow> jserror + jsval) \<Rightarrow> row list \<Rightarrow> row list" where
  "emittedRows extract rows = map (\<lambda>i. rows ! i) (filter (firstOccurrence extract rows) [0..<length rows])"

definition seenNumbers :: "(string \<Rightarrow> jserror + jsval) \<Rightarrow> row list \<Rightarrow> string set" where
  "seenNumbers extract rows = {n. Some n \<in> set (map (orderNumberOf extract) rows)}"

text \<open>
  A record \<open>r\<close> is the record of a row: the row yields an order number \<open>n\<close>,
  \<open>r\<close> is the record built from the row and \<open>n\<close>, and the part of \<open>source_id\<close>
  after its last \<open>-\<close> is \<open>n\<close>.
\<close>

definition isRecordOf :: "(string \<Rightarrow> jserror + jsval) \<Rightarrow> row \<Rightarrow> shipment \<Rightarrow> bool" where
  "isRecordOf extract item r =
     (case orderNumberOf extract item of
        None \<Rightarrow> False
      | Some n \<Rightarrow> r = shipmentOf item n \<and> orderComponent r = n)"

text \<open>
  The two lookup tables in the words of the specification, and the names every object
  inherits from \<open>Object.prototype\<close>.
\<close>

definition expectedMethod :: "string \<Rightarrow> string" where
  "expectedMethod code =
     (if code = ''G'' then ''Ground''
      else if code = ''3RD'' then ''3 Day Select''
      else if code = ''2ND'' then ''2nd Day Air''
      else if code = [] then ''Residential''
      else code)"

definition expectedStoreId :: "string \<Rightarrow> string" where
  "expectedStoreId customer =
     (if customer = ''RTSCS'' then ''68125''
      else if customer = ''RTFMS'' then ''118741''
      else if customer = ''HERO'' then ''14077''
      else customer)"

definition inheritedName :: "string \<Rightarrow> bool" where
  "inheritedName name = (name = ''__proto__'' \<or> name \<in> set objectPrototypeFunctions)"

section \<open>Submission Client\<close>

text \<open>
  A parsed JSON document. \<open>undefined\<close> is not a JSON value: a property that may be
  missing is a \<open>json option\<close>. The pairs of a \<open>JObject\<close> are its own properties,
  each name once. Numbers are integers here; only whether a number is zero is used.
\<close>

datatype json =
    JNull
  | JBool bool
  | JNumber int
  | JString string
  | JArray "json list"
  | JObject "(string \<times> json) list"

fun truthyJ :: "json option \<Rightarrow> bool" where
  "truthyJ None = False"
| "truthyJ (Some JNull) = False"
| "truthyJ (Some (JBool b)) = b"
| "truthyJ (Some (JNumber n)) = (n \<noteq> 0)"
| "truthyJ (Some (JString s)) = (s \<noteq> [])"
| "truthyJ (Some (JArray xs)) = True"
| "truthyJ (Some (JObject kvs)) = True"

text \<open>\<open>a || b\<close> where \<open>b\<close> is a literal.\<close>

definition orElse :: "json option \<Rightarrow> json \<Rightarrow> json" where
  "orElse a b = (case a of None \<Rightarrow> b | Some v \<Rightarrow> if truthyJ a then v else b)"

text \<open>
  \<open>v.name\<close> for the property names the client reads (\<open>status\<close>, \<open>message\<close>,
  \<open>execution_time\<close>, \<open>results\<close>, \<open>postResponse\<close>, \<open>error\<close>), none of which a
  built-in prototype defines: reading from \<open>null\<close> throws, an object gives its own
  property, and every other value gives \<open>undefined\<close>.
\<close>

fun getProperty :: "json \<Rightarrow> string \<Rightarrow> jserror + json option" where
  "getProperty JNull name = Inl TypeError"
| "getProperty (JObject kvs) name = Inr (map_of kvs name)"
| "getProperty v name = Inr None"

record simplified =
  status :: json
  message :: json

record submission =
  response_status :: json
  response_message :: json
  execution_time :: json
  results :: "simplified list"

text \<open>\<open>xs.map(f)\<close> where \<open>f\<close> may throw: the first exception ends the call.\<close>

fun mapE :: "('a \<Rightarrow> jserror + 'b) \<Rightarrow> 'a list \<Rightarrow> jserror + 'b list" where
  "mapE f [] = Inr []"
| "mapE f (x # xs) =
     (case f x of
        Inl e \<Rightarrow> Inl e
      | Inr y \<Rightarrow> (case mapE f xs of Inl e \<Rightarrow> Inl e | Inr ys \<Rightarrow> Inr (y # ys)))"

text \<open>
  Lines 210-219 of variant A, which are also the callback of variants B and C (lines
  427-430 and 621-624): \<open>pr\<close> is the property \<open>postResponse\<close> of the element,
  replaced by \<open>{}\<close> when it is \<open>undefined\<close>.
\<close>

definition summarize :: "json option \<Rightarrow> jserror + simplified" where
  "summarize pr =
     (let postResponse = (case pr of None \<Rightarrow> JObject [] | Some v \<Rightarrow> v) in
      case getProperty postResponse ''status'' of
        Inl e \<Rightarrow> Inl e
      | Inr st \<Rightarrow>
         (case getProperty postResponse ''message'' of
            Inl e \<Rightarrow> Inl e
          | Inr msg \<Rightarrow>
              Inr \<lparr> status = orElse st (JString ''unknown''),
                    message = orElse msg (JString ''No message provided'') \<rparr>))"

text \<open>
  Variant A, lines 202-220: the callback of \<open>postResponses.map\<close>, with the
  destructuring \<open>({ postResponse = {}, error })\<close> of its argument, which throws for
  \<open>null\<close>.
\<close>

definition simplifyItem_A :: "json \<Rightarrow> jserror + simplified" where
  "simplifyItem_A item =
     (case getProperty item ''postResponse'' of
        Inl e \<Rightarrow> Inl e
      | Inr pr \<Rightarrow>
         (case getProperty item ''error'' of
            Inl e \<Rightarrow> Inl e
          | Inr error \<Rightarrow>
             (case error of
                None \<Rightarrow> summarize pr
              | Some err \<Rightarrow>
                  if truthyJ (Some err) then Inr \<lparr> status = JString ''error'', message = err \<rparr>
                  else summarize pr)))"

text \<open>Variant A, lines 194-221.\<close>

definition simplifyPostResponses_A :: "json \<Rightarrow> jserror + simplified list" where
  "simplifyPostResponses_A postResponses =
     (case postResponses of
        JArray items \<Rightarrow>
          if items = [] then Inr [\<lparr> status = JString ''error'', message = JString ''No valid responses received'' \<rparr>]
          else mapE simplifyItem_A items
      | _ \<Rightarrow> Inr [\<lparr> status = JString ''error'', message = JString ''No valid responses received'' \<rparr>])"

text \<open>Variants B and C, lines 426-430 and 620-624: no test of the argument, no \<open>error\<close> rule.\<close>

definition simplifyItem_B :: "json \<Rightarrow> jserror + simplified" where
  "simplifyItem_B item =
     (case getProperty item ''postResponse'' of
        Inl e \<Rightarrow> Inl e
      | Inr pr \<Rightarrow> summarize pr)"

definition simplifyPostResponses_B :: "json \<Rightarrow> jserror + simplified list" where
  "simplifyPostResponses_B postResponses =
     (case postResponses of
        JArray items \<Rightarrow> mapE simplifyItem_B items
      | _ \<Rightarrow> Inl TypeError)"

text \<open>
  The object returned on success (lines 166-171, 401-406, 607-612), its properties
  evaluated in order; \<open>simplify\<close> is the variant's \<open>simplifyPostResponses\<close>.
\<close>

definition structuredResponse :: "(json \<Rightarrow> jserror + simplified list) \<Rightarrow> json \<Rightarrow> jserror + submission" where
  "structuredResponse simplify jsonResponse =
     (case getProperty jsonResponse ''status'' of
        Inl e \<Rightarrow> Inl e
      | Inr st \<Rightarrow>
     (case getProperty jsonResponse ''message'' of
        Inl e \<Rightarrow> Inl e
      | Inr msg \<Rightarrow>
     (case getProperty jsonResponse ''execution_time'' of
        Inl e \<Rightarrow> Inl e
      | Inr et \<Rightarrow>
     (case getProperty jsonResponse ''results'' of
        Inl e \<Rightarrow> Inl e
      | Inr rs \<Rightarrow>
     (case simplify (orElse rs (JArray [])) of
        Inl e \<Rightarrow> Inl e
      | Inr simple \<Rightarrow>
          Inr \<lparr> response_status = orElse st (JString ''success''),
                response_message = orElse msg (JString ''No message provided''),
                execution_time = orElse et (JString ''N/A''),
                results = simple \<rparr>)))))"

text \<open>
  What one \<open>fetch\<close> call meets: the promise is rejected (transport failure), or a
  response arrives with its \<open>ok\<close> flag, its status code and the outcome of reading its
  body (\<open>response.text()\<close>, which may itself be rejected).
\<close>

datatype fetch_outcome =
    Rejected jserror
  | Responded bool nat "jserror + string"

text \<open>The effects of the client that the claims speak of: requests and timer waits (in ms).\<close>

datatype event =
    Fetch "shipment list"
  | Sleep int

text \<open>
  Variant A, the body of \<open>try\<close>, lines 146-171. \<open>parse\<close> stands for \<open>JSON.parse\<close>, a
  built-in; the theorems hold for every such function.
\<close>

definition tryBody_A :: "(string \<Rightarrow> jserror + json) \<Rightarrow> fetch_outcome \<Rightarrow> jserror + submission" where
  "tryBody_A parse outcome =
     (case outcome of
        Rejected e \<Rightarrow> Inl e
      | Responded ok code body \<Rightarrow>
         (case body of
            Inl e \<Rightarrow> Inl e
          | Inr rawResponse \<Rightarrow>
              if \<not> ok then Inl (HttpError code rawResponse)
              else (case parse rawResponse of
                      Inl e \<Rightarrow> Inl e
                    | Inr jsonResponse \<Rightarrow> structuredResponse simplifyPostResponses_A jsonResponse)))"

text \<open>
  Variants B and C, lines 387-406 and 593-612: the body is read after the \<open>ok\<close> test;
  \<open>response.json()\<close> reads the body and parses it.
\<close>

definition tryBody_B :: "(string \<Rightarrow> jserror + json) \<Rightarrow> fetch_outcome \<Rightarrow> jserror + submission" where
  "tryBody_B parse outcome =
     (case outcome of
        Rejected e \<Rightarrow> Inl e
      | Responded ok code body \<Rightarrow>
          if \<not> ok then
            (case body of
               Inl e \<Rightarrow> Inl e
             | Inr errorText \<Rightarrow> Inl (HttpError code errorText))
          else
            (case body of
               Inl e \<Rightarrow> Inl e
             | Inr text \<Rightarrow>
                (case parse text of
                   Inl e \<Rightarrow> Inl e
                 | Inr jsonResponse \<Rightarrow> structuredResponse simplifyPostResponses_B jsonResponse)))"

text \<open>
  The retry loop of variants A and B (lines 143-185 and 385-418):
  \<open>for (let attempt = 1; attempt <= retries; attempt++)\<close>. \<open>net attempt\<close> is what
  the \<open>fetch\<close> of that attempt meets. The result is the settled promise (\<open>Inl\<close>
  rejected, \<open>Inr None\<close> resolved with \<open>undefined\<close> when the loop ends without an
  attempt) and the effects in order.
\<close>

function retryLoop ::
  "(fetch_outcome \<Rightarrow> jserror + submission) \<Rightarrow> (int \<Rightarrow> fetch_outcome) \<Rightarrow> shipment list \<Rightarrow> int \<Rightarrow> int
     \<Rightarrow> (jserror + submission option) \<times> event list" where
  "retryLoop body net data retries attempt =
     (if attempt \<le> retries then
        (case body (net attempt) of
           Inr r \<Rightarrow> (Inr (Some r), [Fetch data])
         | Inl error \<Rightarrow>
             if attempt = retries then (Inl error, [Fetch data])
             else (case retryLoop body net data retries (attempt + 1) of
                     (res, effects) \<Rightarrow> (res, Fetch data # Sleep (attempt * 1000) # effects)))
      else (Inr None, []))"
  by pat_completeness auto
termination
  by (relation "measure (\<lambda>(body, net, data, retries, attempt). nat (retries + 1 - attempt))") auto

text \<open>The default of the parameter \<open>retries\<close> (lines 130 and 381).\<close>

definition defaultRetries :: int where
  "defaultRetries = 3"

text \<open>Variant A, lines 130-186.\<close>

definition postToSubmitRoute_A ::
  "(string \<Rightarrow> jserror + json) \<Rightarrow> (int \<Rightarrow> fetch_outcome) \<Rightarrow> shipment list \<Rightarrow> int
     \<Rightarrow> (jserror + submission option) \<times> event list" where
  "postToSubmitRoute_A parse net data retries =
     (if data = [] then (Inl (Error ''No valid data to send to submit route''), [])
      else retryLoop (tryBody_A parse) net data retries 1)"

text \<open>Variant B, lines 381-419: no test of \<open>data\<close>.\<close>

definition postToSubmitRoute_B ::
  "(string \<Rightarrow> jserror + json) \<Rightarrow> (int \<Rightarrow> fetch_outcome) \<Rightarrow> shipment list \<Rightarrow> int
     \<Rightarrow> (jserror + submission option) \<times> event list" where
  "postToSubmitRoute_B parse net data retries = retryLoop (tryBody_B parse) net data retries 1"

text \<open>Variant C, lines 589-613: no test of \<open>data\<close>, one request, no loop.\<close>

definition postToSubmitRoute_C ::
  "(string \<Rightarrow> jserror + json) \<Rightarrow> (int \<Rightarrow> fetch_outcome) \<Rightarrow> shipment list
     \<Rightarrow> (jserror + submission option) \<times> event list" where
  "postToSubmitRoute_C parse net data =
     (case tryBody_B parse (net 1) of
        Inl error \<Rightarrow> (Inl error, [Fetch data])
      | Inr r \<Rightarrow> (Inr (Some r), [Fetch data]))"

text \<open>
  The effects of \<open>k\<close> attempts of which the first \<open>k - 1\<close> failed: a request per
  attempt, and after the failed attempt \<open>i\<close> a wait of \<open>i * 1000\<close> ms.
\<close>

definition attemptsTrace :: "shipment list \<Rightarrow> int \<Rightarrow> event list" where
  "attemptsTrace data k = concat (map (\<lambda>i. [Fetch data, Sleep (i * 1000)]) [1..k - 1]) @ [Fetch data]"

text \<open>A network that refuses every connection, for concrete runs.\<close>

definition refusingNetwork :: "int \<Rightarrow> fetch_outcome" where
  "refusingNetwork attempt = Rejected (Error ''connect ECONNREFUSED'')"

text \<open>
  What the promise settles to when the loop ends with attempt \<open>k\<close>: rejected with that
  attempt's error, or resolved with its result.
\<close>

definition lastAttempt :: "jserror + submission \<Rightarrow> jserror + submission option" where
  "lastAttempt x = (case x of Inl e \<Rightarrow> Inl e | Inr r \<Rightarrow> Inr (Some r))"

text \<open>A record list for concrete runs, a network that answers every request with
  status 200, and a \<open>JSON.parse\<close> for runs in which every body is a text of the
  document \<open>document\<close>.\<close>

definition sampleShipment :: shipment where
  "sampleShipment = \<lparr> source_id = ''68125-12345'', tracking_number = JSString ''1Z999'',
                       carrier_code = ''UPS'', shipment_method = JSString ''Ground'' \<rparr>"

definition constParse :: "json \<Rightarrow> string \<Rightarrow> jserror + json" where
  "constParse document text = Inr document"

text \<open>A \<open>JSON.parse\<close> for runs in which no body is a JSON text.\<close>

definition unparsable :: "string \<Rightarrow> jserror + json" where
  "unparsable text = Inl (SyntaxError ''Unexpected token'')"

definition okNetwork :: "int \<Rightarrow> fetch_outcome" where
  "okNetwork attempt = Responded True 200 (Inr ''(body)'')"

text \<open>
  The simplification in the words of the specification. \<open>property\<close> reads a property
  that may be missing; \<open>null\<close> has none.
\<close>

definition property :: "json \<Rightarrow> string \<Rightarrow> json option" where
  "property v name = (case v of JObject kvs \<Rightarrow> map_of kvs name | _ \<Rightarrow> None)"

definition expectedSimplified :: "json \<Rightarrow> simplified" where
  "expectedSimplified item =
     (let normal =
        (case property item ''postResponse'' of
           None \<Rightarrow> \<lparr> status = JString ''unknown'', message = JString ''No message provided'' \<rparr>
         | Some postResponse \<Rightarrow>
             \<lparr> status = orElse (property postResponse ''status'') (JString ''unknown''),
               message = orElse (property postResponse ''message'') (JString ''No message provided'') \<rparr>)
      in case property item ''error'' of
           None \<Rightarrow> normal
         | Some error \<Rightarrow>
             if truthyJ (Some error) then \<lparr> status = JString ''error'', message = error \<rparr>
             else normal)"

text \<open>An element the callback can take apart: not \<open>null\<close>, and with a truthy
  \<open>error\<close> or a \<open>postResponse\<close> that is not \<open>null\<close>.\<close>

definition readable :: "json \<Rightarrow> bool" where
  "readable item =
     (item \<noteq> JNull \<and> (truthyJ (property item ''error'') \<or> property item ''postResponse'' \<noteq> Some JNull))"

definition noValidResponses :: simplified where
  "noValidResponses = \<lparr> status = JString ''error'', message = JString ''No valid responses received'' \<rparr>"

definition isNonEmptyArray :: "json option \<Rightarrow> bool" where
  "isNonEmptyArray v = (case v of Some (JArray (x # xs)) \<Rightarrow> True | _ \<Rightarrow> False)"

section \<open>CSV Normalizer\<close>

subsection \<open>Plain objects with string values\<close>

text \<open>
  An object created by \<open>{}\<close> whose values are strings: its own properties in the
  order of their creation, each name once.
\<close>

type_synonym object = "(string \<times> string) list"

text \<open>
  \<open>obj[name] = v\<close> on such an object: an existing property keeps its place and takes
  the new value, a new one is added at the end. The name \<open>__proto__\<close> is an accessor
  of \<open>Object.prototype\<close> whose setter ignores a value that is not an object: no own
  property is created.
\<close>

definition putProperty :: "object \<Rightarrow> string \<Rightarrow> string \<Rightarrow> object" where
  "putProperty obj name v =
     (if name = ''__proto__'' then obj
      else if name \<in> set (map fst obj) then map (\<lambda>(k, w). if k = name then (k, v) else (k, w)) obj
      else obj @ [(name, v)])"

text \<open>
  An array index: the decimal text, without a leading zero, of a number below
  \<open>2^32 - 1\<close>.
\<close>

definition digitValue :: "char \<Rightarrow> nat" where
  "digitValue c = of_char c - 48"

definition decimal :: "string \<Rightarrow> nat" where
  "decimal s = foldl (\<lambda>n c. 10 * n + digitValue c) 0 s"

definition isArrayIndex :: "string \<Rightarrow> bool" where
  "isArrayIndex name =
     (case name of
        [] \<Rightarrow> False
      | c # cs \<Rightarrow> list_all isDigit name \<and> (cs = [] \<or> c \<noteq> CHR ''0'') \<and> decimal name < 4294967295)"

text \<open>
  The keys of \<open>Object.keys(obj)\<close>, each with \<open>obj[key]\<close>: the array indices in
  ascending order, then the other names in the order of their creation.
\<close>

definition objectEntries :: "object \<Rightarrow> (string \<times> string) list" where
  "objectEntries obj =
     sort_key (\<lambda>(k, v). decimal k) (filter (\<lambda>(k, v). isArrayIndex k) obj)
     @ filter (\<lambda>(k, v). \<not> isArrayIndex k) obj"

subsection \<open>The parser\<close>

text \<open>
  Modelled from the spec: the \<open>csv-parser\<close> package, through which
  \<open>parseCSVFromBuffer\<close> pipes the buffer, is not part of the source. In the words of
  the specification: the first \<open>skipLines\<close> lines are skipped, the next line is the
  column header line, and every later line is a data row, one record each. What the
  specification leaves open about delimited text is filled in as the package does with
  its default options: a line ends at a line feed that is not inside double quotes, and
  a carriage return before it is dropped; cells are separated by commas outside double
  quotes; a cell enclosed in double quotes loses them, and a doubled double quote in a
  cell stands for one; a line ending in a comma has a last, empty cell; a record is an
  object that receives the cells in order, each under the column name at its position
  (under \<open>_\<close> and the position when the header line has fewer names), so a repeated
  column name keeps its first place and its last cell. The model covers the buffers in
  which every carriage return outside quotes is followed by a line feed. The
  specification names a ParseError for a byte stream that cannot be read as delimited
  text and does not say which streams those are: this parser reads every buffer, and
  \<open>parseCSVFromBuffer\<close> below passes on the error of any parser.
\<close>

fun csvSplitLines :: "bool \<Rightarrow> string \<Rightarrow> string \<Rightarrow> string list" where
  "csvSplitLines quoted acc [] = (if acc = [] then [] else [rev acc])"
| "csvSplitLines quoted acc (c # cs) =
     (if c = CHR 0x22 then csvSplitLines (\<not> quoted) (c # acc) cs
      else if c = CHR 0x0A \<and> \<not> quoted then rev acc # csvSplitLines False [] cs
      else csvSplitLines quoted (c # acc) cs)"

definition csvLines :: "string \<Rightarrow> string list" where
  "csvLines buffer = csvSplitLines False [] buffer"

definition dropCR :: "string \<Rightarrow> string" where
  "dropCR line = (if line \<noteq> [] \<and> last line = CHR 0x0D then butlast line else line)"

text \<open>
  The raw cells of a line: a double quote opens a quoted stretch, and closes it when a
  comma follows; inside a quoted stretch a double quote followed by another is passed
  over with it.
\<close>

fun csvRawCells :: "bool \<Rightarrow> string \<Rightarrow> string \<Rightarrow> string list" where
  "csvRawCells quoted acc [] = (if acc = [] then [] else [rev acc])"
| "csvRawCells quoted acc [c] =
     (if c = CHR 0x22 \<and> \<not> quoted then csvRawCells True (c # acc) []
      else if c = CHR '','' \<and> \<not> quoted then rev acc # csvRawCells quoted [] []
      else csvRawCells quoted (c # acc) [])"
| "csvRawCells quoted acc (c # n # cs) =
     (if c = CHR 0x22 \<and> (if quoted then n = CHR '','' else True) then csvRawCells (\<not> quoted) (c # acc) (n # cs)
      else if c = CHR 0x22 \<and> n = CHR 0x22 then csvRawCells quoted (n # c # acc) cs
      else if c = CHR '','' \<and> \<not> quoted then rev acc # csvRawCells quoted [] (n # cs)
      else csvRawCells quoted (c # acc) (n # cs))"

definition unquote :: "string \<Rightarrow> string" where
  "unquote raw =
     (if raw \<noteq> [] \<and> hd raw = CHR 0x22 \<and> last raw = CHR 0x22 then butlast (tl raw) else raw)"

fun unescape :: "string \<Rightarrow> string" where
  "unescape (c # n # cs) =
     (if c = CHR 0x22 \<and> n = CHR 0x22 then n # unescape cs else c # unescape (n # cs))"
| "unescape cs = cs"

definition csvCells :: "string \<Rightarrow> string list" where
  "csvCells line =
     (let content = dropCR line
      in map (\<lambda>raw. unescape (unquote raw)) (csvRawCells False [] content)
         @ (if content \<noteq> [] \<and> last content = CHR '','' then [[]] else []))"

function decimalString :: "nat \<Rightarrow> string" where
  "decimalString n =
     (if n < 10 then [char_of (48 + n)] else decimalString (n div 10) @ [char_of (48 + n mod 10)])"
  by pat_completeness auto
termination
  by (relation "measure (\<lambda>n. n)") auto

definition rowObject :: "string list \<Rightarrow> string list \<Rightarrow> object" where
  "rowObject headers cells =
     foldl (\<lambda>obj (position, cell).
              putProperty obj
                (if position < length headers then headers ! position else CHR ''_'' # decimalString position)
                cell)
       [] (enumerate 0 cells)"

definition csvParser :: "nat \<Rightarrow> string \<Rightarrow> jserror + object list" where
  "csvParser skipLines buffer =
     Inr (case drop skipLines (csvLines buffer) of
            [] \<Rightarrow> []
          | header # dataLines \<Rightarrow> map (\<lambda>line. rowObject (csvCells header) (csvCells line)) dataLines)"

subsection \<open>The source\<close>

text \<open>\<open>key.replace(/[- ]/g, '_')\<close>, line 71.\<close>

definition normalizeKey :: "string \<Rightarrow> string" where
  "normalizeKey key = map (\<lambda>c. if c = CHR ''-'' \<or> c = CHR '' '' then CHR ''_'' else c) key"

text \<open>
  \<open>normalizedData[newKey] = data[key]\<close>, line 72. The rows are read by name only, so
  \<open>normalizedData\<close> is kept as the map from its names to their values; as for every
  object created by \<open>{}\<close>, the name \<open>__proto__\<close> creates no property.
\<close>

definition setProperty :: "row \<Rightarrow> string \<Rightarrow> string \<Rightarrow> row" where
  "setProperty obj name v = (if name = ''__proto__'' then obj else obj(name \<mapsto> v))"

text \<open>The \<open>forEach\<close> of lines 69-73: \<open>data\<close> is given by its keys and values
  in the order of \<open>Object.keys\<close>.\<close>

definition normalizedData :: "(string \<times> string) list \<Rightarrow> row" where
  "normalizedData data = foldl (\<lambda>obj (key, v). setProperty obj (normalizeKey key) v) Map.empty data"

text \<open>
  Lines 59-79 (the same in the three variants). \<open>parser\<close> stands for the imported
  \<open>csvParser\<close>, called with \<open>skipLines: 4\<close>: it gives the objects of the \<open>data\<close>
  events in order, or the error of its \<open>error\<close> event, which rejects the promise.
\<close>

definition parseCSVFromBuffer ::
  "(nat \<Rightarrow> string \<Rightarrow> jserror + object list) \<Rightarrow> string \<Rightarrow> jserror + row list" where
  "parseCSVFromBuffer parser buffer =
     (case parser 4 buffer of
        Inl error \<Rightarrow> Inl error
      | Inr events \<Rightarrow> Inr (map (\<lambda>data. normalizedData (objectEntries data)) events))"

text \<open>Four banner lines for concrete uploads.\<close>

definition bannerLines :: string where
  "bannerLines = concat (map (\<lambda>l. l @ [CHR 0x0A]) [''Cannon Hill'', ''Shipping report'', ''page 1'', []])"

section \<open>Properties of the Row Transformer\<close>

subsection \<open>Strings and extraction\<close>

lemma split_char_first: "index (split_char sep s) 0 = Some (takeWhile (\<lambda>c. c \<noteq> sep) s)"
  by (induction s) (auto split: list.splits)

lemma sanitizedValue_B_eq:
  "sanitizedValue_B po = Inr (JSString (trim (filter isDigit (firstSegment po))))"
  by (simp add: sanitizedValue_B_def split_char_first firstSegment_def)

lemma digit_not_space: "isDigit c \<Longrightarrow> \<not> isSpace c"
  by (auto simp: isDigit_def isSpace_def)

lemma dropWhile_none: "\<forall>x\<in>set xs. \<not> P x \<Longrightarrow> dropWhile P xs = xs"
  by (cases xs) auto

lemma trim_digits: "list_all isDigit s \<Longrightarrow> trim s = s"
  unfolding trim_def
  by (simp add: dropWhile_none list_all_iff digit_not_space)

lemma find_first_Some: "find_first p xs = Some x \<Longrightarrow> p x"
  by (induction xs) (auto split: if_splits)

lemma sanitizedValue_A_digits:
  "\<exists>v. sanitizedValue_A po = Inr v \<and> (truthy v \<longrightarrow> allDigits (toString v))"
  by (auto simp: sanitizedValue_A_def allDigits_def trim_digits split: option.splits dest: find_first_Some)

lemma sanitizedValue_B_digits:
  "\<exists>v. sanitizedValue_B po = Inr v \<and> (truthy v \<longrightarrow> allDigits (toString v))"
  by (simp add: sanitizedValue_B_eq allDigits_def trim_digits list_all_iff)

lemma afterLastDash_append:
  assumes "CHR ''-'' \<notin> set n"
  shows "afterLastDash (p @ CHR ''-'' # n) = n"
proof -
  have "takeWhile (\<lambda>c. c \<noteq> CHR ''-'') (rev n @ CHR ''-'' # rev p) = takeWhile (\<lambda>c. c \<noteq> CHR ''-'') (rev n)"
    by (rule takeWhile_tail) simp
  also have "\<dots> = rev n"
    using assms by (auto simp: takeWhile_eq_all_conv)
  finally show ?thesis
    by (simp add: afterLastDash_def)
qed

lemma dash_not_digit: "\<not> isDigit CHR ''-''"
  by (simp add: isDigit_def)

lemma digits_no_dash: "list_all isDigit n \<Longrightarrow> CHR ''-'' \<notin> set n"
  using dash_not_digit by (auto simp: list_all_iff)

lemma orderComponent_shipmentOf:
  "allDigits n \<Longrightarrow> orderComponent (shipmentOf item n) = n"
  by (simp add: orderComponent_def shipmentOf_def Let_def split_beta afterLastDash_append digits_no_dash allDigits_def)

lemma formatLoop_snoc:
  "formatLoop extract st (items @ [item]) =
     (case formatLoop extract st items of
        Inl e \<Rightarrow> Inl e
      | Inr st' \<Rightarrow> formatStep extract st' item)"
  by (induction items arbitrary: st) (auto split: sum.splits)

lemma formatStep_orderNumberOf:
  assumes "\<And>po. \<exists>v. extract po = Inr v"
  shows "formatStep extract (out, seen) item =
     Inr (case orderNumberOf extract item of
            None \<Rightarrow> (out, seen)
          | Some n \<Rightarrow> if n \<in> seen then (out, seen)
                      else (out @ [shipmentOf item n], insert n seen))"
proof -
  obtain v where "extract (toString (field item ''Cust_PO_Number'')) = Inr v"
    using assms by blast
  then show ?thesis
    by (simp add: formatStep_def orderNumberOf_def)
qed

lemma firstOccurrence_append:
  "i < length rows \<Longrightarrow> firstOccurrence extract (rows @ [r]) i = firstOccurrence extract rows i"
  by (simp add: firstOccurrence_def nth_append split: option.splits)

lemma emittedRows_snoc:
  "emittedRows extract (rows @ [r]) =
     emittedRows extract rows @ (if firstOccurrence extract (rows @ [r]) (length rows) then [r] else [])"
proof -
  have "filter (firstOccurrence extract (rows @ [r])) [0..<length rows]
        = filter (firstOccurrence extract rows) [0..<length rows]"
    by (rule filter_cong) (simp_all add: firstOccurrence_append)
  moreover have "map (\<lambda>i. (rows @ [r]) ! i) (filter (firstOccurrence extract rows) [0..<length rows])
        = map (\<lambda>i. rows ! i) (filter (firstOccurrence extract rows) [0..<length rows])"
    by (rule map_cong) (simp_all add: nth_append)
  ultimately show ?thesis
    by (simp add: emittedRows_def)
qed

lemma firstOccurrence_last:
  "firstOccurrence extract (rows @ [r]) (length rows) =
     (case orderNumberOf extract r of
        None \<Rightarrow> False
      | Some n \<Rightarrow> Some n \<notin> orderNumberOf extract ` set rows)"
  by (simp add: firstOccurrence_def split: option.splits)

lemma orderNumberOf_digits:
  assumes ex: "\<And>po. \<exists>v. extract po = Inr v \<and> (truthy v \<longrightarrow> allDigits (toString v))"
    and n: "orderNumberOf extract item = Some n"
  shows "allDigits n"
proof -
  obtain v where v: "extract (toString (field item ''Cust_PO_Number'')) = Inr v"
    and d: "truthy v \<longrightarrow> allDigits (toString v)"
    using ex by blast
  from n v d show ?thesis
    by (auto simp: orderNumberOf_def split: if_splits)
qed

lemma emittedRows_Some:
  "item \<in> set (emittedRows extract rows) \<Longrightarrow> \<exists>n. orderNumberOf extract item = Some n"
  by (auto simp: emittedRows_def firstOccurrence_def split: option.splits)

lemma seenNumbers_Nil: "seenNumbers extract [] = {}"
  by (simp add: seenNumbers_def)

lemma seenNumbers_snoc:
  "seenNumbers extract (rows @ [r]) =
     (case orderNumberOf extract r of
        None \<Rightarrow> seenNumbers extract rows
      | Some n \<Rightarrow> insert n (seenNumbers extract rows))"
  by (auto simp: seenNumbers_def split: option.splits)

lemma firstOccurrence_seen:
  "firstOccurrence extract (rows @ [r]) (length rows) =
     (case orderNumberOf extract r of
        None \<Rightarrow> False
      | Some n \<Rightarrow> n \<notin> seenNumbers extract rows)"
  by (simp add: firstOccurrence_def seenNumbers_def split: option.splits)

lemma emittedRows_step:
  "emittedRows extract (rows @ [r]) =
     (case orderNumberOf extract r of
        None \<Rightarrow> emittedRows extract rows
      | Some n \<Rightarrow> if n \<in> seenNumbers extract rows then emittedRows extract rows
                  else emittedRows extract rows @ [r])"
  by (simp add: emittedRows_snoc firstOccurrence_seen split: option.splits)

lemma emittedRows_numbers:
  "set (map (\<lambda>item. the (orderNumberOf extract item)) (emittedRows extract rows))
     = seenNumbers extract rows
   \<and> distinct (map (\<lambda>item. the (orderNumberOf extract item)) (emittedRows extract rows))"
proof (induction rows rule: rev_induct)
  case Nil
  show ?case by (simp add: emittedRows_def seenNumbers_Nil)
next
  case (snoc r rows)
  then have s: "set (map (\<lambda>item. the (orderNumberOf extract item)) (emittedRows extract rows))
          = seenNumbers extract rows"
    and d: "distinct (map (\<lambda>item. the (orderNumberOf extract item)) (emittedRows extract rows))"
    by blast+
  show ?case
  proof (cases "orderNumberOf extract r")
    case None
    then show ?thesis
      by (simp only: emittedRows_step seenNumbers_snoc option.case s d)
  next
    case (Some n)
    show ?thesis
    proof (cases "n \<in> seenNumbers extract rows")
      case True
      then have "insert n (seenNumbers extract rows) = seenNumbers extract rows" by blast
      with Some True show ?thesis
        by (simp only: emittedRows_step seenNumbers_snoc option.case if_True s d)
    next
      case False
      have "set (map (\<lambda>item. the (orderNumberOf extract item)) (emittedRows extract rows @ [r]))
          = insert n (seenNumbers extract rows)"
        using s by (simp add: Some)
      moreover have "distinct (map (\<lambda>item. the (orderNumberOf extract item)) (emittedRows extract rows @ [r]))"
        using d False s by (simp add: Some)
      ultimately show ?thesis
        using Some False
        by (simp only: emittedRows_step seenNumbers_snoc option.case if_False)
    qed
  qed
qed

lemma formatLoop_emittedRows:
  assumes tot: "\<And>po. \<exists>v. extract po = Inr v"
  shows "formatLoop extract ([], {}) rows =
           Inr (map (\<lambda>item. shipmentOf item (the (orderNumberOf extract item))) (emittedRows extract rows),
                seenNumbers extract rows)"
proof (induction rows rule: rev_induct)
  case Nil
  show ?case by (simp add: emittedRows_def seenNumbers_Nil)
next
  case (snoc r rows)
  show ?case
    by (cases "orderNumberOf extract r")
       (simp_all add: formatLoop_snoc snoc formatStep_orderNumberOf [OF tot]
          emittedRows_step seenNumbers_snoc insert_absorb)
qed

lemma orderComponent_emitted:
  assumes ex: "\<And>po. \<exists>v. extract po = Inr v \<and> (truthy v \<longrightarrow> allDigits (toString v))"
  shows "map orderComponent (map (\<lambda>item. shipmentOf item (the (orderNumberOf extract item))) (emittedRows extract rows))
         = map (\<lambda>item. the (orderNumberOf extract item)) (emittedRows extract rows)"
proof -
  have "orderComponent (shipmentOf item (the (orderNumberOf extract item))) = the (orderNumberOf extract item)"
    if "item \<in> set (emittedRows extract rows)" for item
  proof -
    from that obtain n where n: "orderNumberOf extract item = Some n"
      using emittedRows_Some by blast
    with ex have "allDigits n" by (rule orderNumberOf_digits)
    then show ?thesis using n by (simp add: orderComponent_shipmentOf)
  qed
  then show ?thesis by simp
qed


lemma formatWith_emittedRows:
  assumes tot: "\<And>po. \<exists>v. extract po = Inr v"
  shows "formatWith extract rows =
           Inr (map (\<lambda>item. shipmentOf item (the (orderNumberOf extract item))) (emittedRows extract rows))"
  by (simp add: formatWith_def formatLoop_emittedRows [OF tot])

lemma emitted_isRecordOf:
  assumes ex: "\<And>po. \<exists>v. extract po = Inr v \<and> (truthy v \<longrightarrow> allDigits (toString v))"
  shows "list_all2 (isRecordOf extract) (emittedRows extract rows)
           (map (\<lambda>item. shipmentOf item (the (orderNumberOf extract item))) (emittedRows extract rows))"
proof -
  have "isRecordOf extract item (shipmentOf item (the (orderNumberOf extract item)))"
    if "item \<in> set (emittedRows extract rows)" for item
  proof -
    from that obtain n where n: "orderNumberOf extract item = Some n"
      using emittedRows_Some by blast
    with ex have "allDigits n" by (rule orderNumberOf_digits)
    then show ?thesis using n by (simp add: isRecordOf_def orderComponent_shipmentOf)
  qed
  then show ?thesis
    by (simp add: list_all2_map2 list_all2_same)
qed

lemma emitted_digits:
  assumes ex: "\<And>po. \<exists>v. extract po = Inr v \<and> (truthy v \<longrightarrow> allDigits (toString v))"
  shows "list_all allDigits (map (\<lambda>item. the (orderNumberOf extract item)) (emittedRows extract rows))"
proof -
  have "allDigits (the (orderNumberOf extract item))"
    if "item \<in> set (emittedRows extract rows)" for item
  proof -
    from that obtain n where n: "orderNumberOf extract item = Some n"
      using emittedRows_Some by blast
    with ex have "allDigits n" by (rule orderNumberOf_digits)
    then show ?thesis using n by simp
  qed
  then show ?thesis by (simp add: list_all_iff)
qed

lemma format_summary:
  assumes ex: "\<And>po. \<exists>v. extract po = Inr v \<and> (truthy v \<longrightarrow> allDigits (toString v))"
  shows "\<exists>out. formatWith extract rows = Inr out
           \<and> list_all2 (isRecordOf extract) (emittedRows extract rows) out
           \<and> distinct (map orderComponent out)
           \<and> list_all allDigits (map orderComponent out)
           \<and> set (map orderComponent out) = seenNumbers extract rows"
proof -
  let ?out = "map (\<lambda>item. shipmentOf item (the (orderNumberOf extract item))) (emittedRows extract rows)"
  have tot: "\<And>po. \<exists>v. extract po = Inr v" using ex by blast
  have 1: "formatWith extract rows = Inr ?out" by (rule formatWith_emittedRows [OF tot])
  have 2: "list_all2 (isRecordOf extract) (emittedRows extract rows) ?out"
    by (rule emitted_isRecordOf [OF ex])
  have c: "map orderComponent ?out = map (\<lambda>item. the (orderNumberOf extract item)) (emittedRows extract rows)"
    by (rule orderComponent_emitted [OF ex])
  have 3: "distinct (map orderComponent ?out)"
    unfolding c using emittedRows_numbers by blast
  have 4: "list_all allDigits (map orderComponent ?out)"
    unfolding c by (rule emitted_digits [OF ex])
  have 5: "set (map orderComponent ?out) = seenNumbers extract rows"
    unfolding c using emittedRows_numbers by blast
  from 1 2 3 4 5 show ?thesis by blast
qed

lemma format_keys:
  assumes ex: "\<And>po. \<exists>v. extract po = Inr v \<and> (truthy v \<longrightarrow> allDigits (toString v))"
  shows "\<exists>out uniqueOrderIds. formatLoop extract ([], {}) rows = Inr (out, uniqueOrderIds)
           \<and> formatWith extract rows = Inr out
           \<and> list_all allDigits (map orderComponent out)
           \<and> set (map orderComponent out) = uniqueOrderIds"
proof -
  let ?out = "map (\<lambda>item. shipmentOf item (the (orderNumberOf extract item))) (emittedRows extract rows)"
  have tot: "\<And>po. \<exists>v. extract po = Inr v" using ex by blast
  have 0: "formatLoop extract ([], {}) rows = Inr (?out, seenNumbers extract rows)"
    by (rule formatLoop_emittedRows [OF tot])
  have 1: "formatWith extract rows = Inr ?out" by (rule formatWith_emittedRows [OF tot])
  have c: "map orderComponent ?out = map (\<lambda>item. the (orderNumberOf extract item)) (emittedRows extract rows)"
    by (rule orderComponent_emitted [OF ex])
  have 4: "list_all allDigits (map orderComponent ?out)"
    unfolding c by (rule emitted_digits [OF ex])
  have 5: "set (map orderComponent ?out) = seenNumbers extract rows"
    unfolding c using emittedRows_numbers by blast
  from 0 1 4 5 show ?thesis by blast
qed

lemma deduplication_example:
  "formatCannonHillData_B
     [[''Cust_PO_Number'' \<mapsto> ''12345/1'', ''Customer_Number'' \<mapsto> ''RTSCS'', ''Tracking_Number'' \<mapsto> ''1Z001''],
      [''Cust_PO_Number'' \<mapsto> ''n/a'', ''Customer_Number'' \<mapsto> ''RTSCS'', ''Tracking_Number'' \<mapsto> ''1Z002''],
      [''Cust_PO_Number'' \<mapsto> ''12345/2'', ''Customer_Number'' \<mapsto> ''HERO'', ''Tracking_Number'' \<mapsto> ''1Z003''],
      [''Customer_Number'' \<mapsto> ''HERO'', ''Tracking_Number'' \<mapsto> ''1Z004''],
      [''Cust_PO_Number'' \<mapsto> ''777'', ''Customer_Number'' \<mapsto> ''HERO'', ''Tracking_Number'' \<mapsto> ''1Z005'']]
   = Inr [\<lparr> source_id = ''68125-12345'', tracking_number = JSString ''1Z001'',
            carrier_code = [], shipment_method = JSString ''Residential'' \<rparr>,
          \<lparr> source_id = ''14077-777'', tracking_number = JSString ''1Z005'',
            carrier_code = [], shipment_method = JSString ''Residential'' \<rparr>]"
  by code_simp


lemma sanitizedValue_A_eq:
  "sanitizedValue_A po =
     Inr (case find_first allDigits (split_runs isSeparator [] po) of
            None \<Rightarrow> JSUndefined
          | Some part \<Rightarrow> JSString part)"
  by (auto simp: sanitizedValue_A_def allDigits_def trim_digits split: option.splits dest: find_first_Some)

subsection \<open>The claims about extraction and deduplication\<close>

text \<open>
  Claim C2, as amended. For a row whose \<open>Cust_PO_Number\<close> is non-empty, variants B
  and C take as order number the first segment of the value split on \<open>/\<close>, stripped of
  every non-digit character and trimmed; when that string is empty the row is skipped
  (and so is a row whose order number was seen before). Variant A has another rule:
  it splits on runs of \<open>/\<close>, white space and \<open>-\<close> and takes the first piece that
  consists of digits only; without such a piece the row is skipped.
\<close>

theorem order_number_extraction:
  assumes "item ''Cust_PO_Number'' = Some po" and "po \<noteq> []"
  shows "formatStep sanitizedValue_B (formattedData, uniqueOrderIds) item =
           Inr (if extractOrderNumber po = [] \<or> extractOrderNumber po \<in> uniqueOrderIds
                then (formattedData, uniqueOrderIds)
                else (formattedData @ [shipmentOf item (extractOrderNumber po)],
                      insert (extractOrderNumber po) uniqueOrderIds))
       \<and> formatStep sanitizedValue_A (formattedData, uniqueOrderIds) item =
           Inr (case find_first allDigits (split_runs isSeparator [] po) of
                  None \<Rightarrow> (formattedData, uniqueOrderIds)
                | Some part \<Rightarrow>
                    if part \<in> uniqueOrderIds then (formattedData, uniqueOrderIds)
                    else (formattedData @ [shipmentOf item part], insert part uniqueOrderIds))"
proof
  show "formatStep sanitizedValue_B (formattedData, uniqueOrderIds) item =
           Inr (if extractOrderNumber po = [] \<or> extractOrderNumber po \<in> uniqueOrderIds
                then (formattedData, uniqueOrderIds)
                else (formattedData @ [shipmentOf item (extractOrderNumber po)],
                      insert (extractOrderNumber po) uniqueOrderIds))"
    using assms
    by (simp add: formatStep_def field_def sanitizedValue_B_eq extractOrderNumber_def)
  have "part \<noteq> []" if "find_first allDigits (split_runs isSeparator [] po) = Some part" for part
    using find_first_Some [OF that] by (simp add: allDigits_def)
  then show "formatStep sanitizedValue_A (formattedData, uniqueOrderIds) item =
           Inr (case find_first allDigits (split_runs isSeparator [] po) of
                  None \<Rightarrow> (formattedData, uniqueOrderIds)
                | Some part \<Rightarrow>
                    if part \<in> uniqueOrderIds then (formattedData, uniqueOrderIds)
                    else (formattedData @ [shipmentOf item part], insert part uniqueOrderIds))"
    using assms
    by (simp add: formatStep_def field_def sanitizedValue_A_eq split: option.splits)
qed

theorem order_number_extraction_witness:
  "formatStep sanitizedValue_B ([], {}) [''Cust_PO_Number'' \<mapsto> ''12345/1''] =
     Inr ([shipmentOf [''Cust_PO_Number'' \<mapsto> ''12345/1''] ''12345''], {''12345''})
   \<and> formatStep sanitizedValue_A ([], {}) [''Cust_PO_Number'' \<mapsto> ''12345/1''] =
     Inr ([shipmentOf [''Cust_PO_Number'' \<mapsto> ''12345/1''] ''12345''], {''12345''})"
proof -
  have 1: "[''Cust_PO_Number'' \<mapsto> ''12345/1''] ''Cust_PO_Number'' = Some ''12345/1''" by simp
  have 2: "''12345/1'' \<noteq> []" by simp
  have 3: "extractOrderNumber ''12345/1'' = ''12345''" by code_simp
  have 4: "find_first allDigits (split_runs isSeparator [] ''12345/1'') = Some ''12345''" by code_simp
  show ?thesis
    using order_number_extraction [where item = "[''Cust_PO_Number'' \<mapsto> ''12345/1'']"
        and po = "''12345/1''" and formattedData = "[]" and uniqueOrderIds = "{}"] 1 2 3 4
    by simp
qed

theorem order_number_extraction_counterexample:
  "formatCannonHillData_A [[''Cust_PO_Number'' \<mapsto> ''AB12/3'', ''Customer_Number'' \<mapsto> ''RTSCS'']] =
     Inr [\<lparr> source_id = ''68125-3'', tracking_number = JSUndefined, carrier_code = [],
            shipment_method = JSString ''Residential'' \<rparr>]
   \<and> extractOrderNumber ''AB12/3'' = ''12''"
  by code_simp


text \<open>
  Claim C3. In every variant the order-number components of the output records are
  pairwise distinct, and the output is, record by record and in input order, the
  records of the rows that are the first to yield their order number.
\<close>

theorem first_occurrence_wins:
  "(\<exists>out. formatCannonHillData_A rows = Inr out
      \<and> list_all2 (isRecordOf sanitizedValue_A) (emittedRows sanitizedValue_A rows) out
      \<and> distinct (map orderComponent out))
   \<and> (\<exists>out. formatCannonHillData_B rows = Inr out
      \<and> list_all2 (isRecordOf sanitizedValue_B) (emittedRows sanitizedValue_B rows) out
      \<and> distinct (map orderComponent out))"
proof
  show "\<exists>out. formatCannonHillData_A rows = Inr out
      \<and> list_all2 (isRecordOf sanitizedValue_A) (emittedRows sanitizedValue_A rows) out
      \<and> distinct (map orderComponent out)"
    unfolding formatCannonHillData_A_def
    using format_summary [of sanitizedValue_A rows, OF sanitizedValue_A_digits] by blast
  show "\<exists>out. formatCannonHillData_B rows = Inr out
      \<and> list_all2 (isRecordOf sanitizedValue_B) (emittedRows sanitizedValue_B rows) out
      \<and> distinct (map orderComponent out)"
    unfolding formatCannonHillData_B_def
    using format_summary [of sanitizedValue_B rows, OF sanitizedValue_B_digits] by blast
qed


text \<open>
  Claim C10. In every variant, the order-number component of each emitted record (the
  part of \<open>source_id\<close> after its last \<open>-\<close>) is a non-empty string of digits, and
  these components are exactly the keys that the loop leaves in \<open>uniqueOrderIds\<close>.
\<close>

theorem order_numbers_are_digits:
  "(\<exists>out uniqueOrderIds. formatLoop sanitizedValue_A ([], {}) rows = Inr (out, uniqueOrderIds)
      \<and> formatCannonHillData_A rows = Inr out
      \<and> list_all allDigits (map orderComponent out)
      \<and> set (map orderComponent out) = uniqueOrderIds)
   \<and> (\<exists>out uniqueOrderIds. formatLoop sanitizedValue_B ([], {}) rows = Inr (out, uniqueOrderIds)
      \<and> formatCannonHillData_B rows = Inr out
      \<and> list_all allDigits (map orderComponent out)
      \<and> set (map orderComponent out) = uniqueOrderIds)"
  unfolding formatCannonHillData_A_def formatCannonHillData_B_def
  using format_keys [of sanitizedValue_A rows, OF sanitizedValue_A_digits]
    format_keys [of sanitizedValue_B rows, OF sanitizedValue_B_digits]
  by blast


section \<open>Properties of the Submission Client\<close>

subsection \<open>The retry loop\<close>

declare retryLoop.simps [simp del]

lemma retryLoop_success:
  "attempt \<le> retries \<Longrightarrow> body (net attempt) = Inr r \<Longrightarrow>
     retryLoop body net data retries attempt = (Inr (Some r), [Fetch data])"
  by (subst retryLoop.simps) simp

lemma retryLoop_exhausted:
  "body (net retries) = Inl e \<Longrightarrow>
     retryLoop body net data retries retries = (Inl e, [Fetch data])"
  by (subst retryLoop.simps) simp

lemma retryLoop_retry:
  "attempt < retries \<Longrightarrow> body (net attempt) = Inl e \<Longrightarrow>
     retryLoop body net data retries attempt =
       (case retryLoop body net data retries (attempt + 1) of
          (res, effects) \<Rightarrow> (res, Fetch data # Sleep (attempt * 1000) # effects))"
  by (subst retryLoop.simps) simp

lemma retryLoop_failures:
  assumes "a \<le> k" and "k \<le> retries"
    and "list_all (\<lambda>i. isl (body (net i))) [a..k - 1]"
  shows "retryLoop body net data retries a =
           (case retryLoop body net data retries k of
              (res, effects) \<Rightarrow>
                (res, concat (map (\<lambda>i. [Fetch data, Sleep (i * 1000)]) [a..k - 1]) @ effects))"
  using assms
proof (induction "nat (k - a)" arbitrary: a)
  case 0
  then have "a = k" by simp
  then show ?case by (simp add: split_beta)
next
  case (Suc n)
  then have lt: "a < k" by linarith
  then have up: "[a..k - 1] = a # [a + 1..k - 1]"
    by (simp add: upto_rec1)
  from Suc.prems(3) have fa: "isl (body (net a))"
    and rest: "list_all (\<lambda>i. isl (body (net i))) [a + 1..k - 1]"
    unfolding up by simp_all
  from fa obtain e where e: "body (net a) = Inl e"
    by (cases "body (net a)") simp_all
  have n: "n = nat (k - (a + 1))" using Suc.hyps(2) by linarith
  have ih: "retryLoop body net data retries (a + 1) =
           (case retryLoop body net data retries k of
              (res, effects) \<Rightarrow>
                (res, concat (map (\<lambda>i. [Fetch data, Sleep (i * 1000)]) [a + 1..k - 1]) @ effects))"
    using Suc.hyps(1) [OF n] lt Suc.prems(2) rest by simp
  have "a < retries" using lt Suc.prems(2) by linarith
  then have "retryLoop body net data retries a =
       (case retryLoop body net data retries (a + 1) of
          (res, effects) \<Rightarrow> (res, Fetch data # Sleep (a * 1000) # effects))"
    using e by (rule retryLoop_retry)
  then show ?case
    unfolding up by (simp add: ih split_beta)
qed

lemma retryLoop_stops:
  assumes "1 \<le> k" and "k \<le> retries"
    and "list_all (\<lambda>i. isl (body (net i))) [1..k - 1]"
    and "k = retries \<or> \<not> isl (body (net k))"
  shows "retryLoop body net data retries 1 = (lastAttempt (body (net k)), attemptsTrace data k)"
proof -
  have "retryLoop body net data retries k = (lastAttempt (body (net k)), [Fetch data])"
  proof (cases "body (net k)")
    case (Inl e)
    with assms(4) have "k = retries" by simp
    with Inl show ?thesis by (simp add: retryLoop_exhausted lastAttempt_def)
  next
    case (Inr r)
    with assms(2) show ?thesis by (simp add: retryLoop_success lastAttempt_def)
  qed
  then show ?thesis
    using retryLoop_failures [OF assms(1) assms(2) assms(3), of data]
    by (simp add: attemptsTrace_def)
qed

lemma retryLoop_result:
  "retryLoop body net data retries attempt = (Inr (Some r), effects) \<Longrightarrow> \<exists>i. body (net i) = Inr r"
proof (induction body net data retries attempt arbitrary: effects rule: retryLoop.induct)
  case (1 body net data retries attempt)
  show ?case
  proof (cases "attempt \<le> retries")
    case False
    with "1.prems" show ?thesis by (subst (asm) retryLoop.simps) simp
  next
    case le: True
    show ?thesis
    proof (cases "body (net attempt)")
      case (Inr x)
      with "1.prems" le have "x = r" by (subst (asm) retryLoop.simps) simp
      with Inr show ?thesis by blast
    next
      case (Inl e)
      show ?thesis
      proof (cases "attempt = retries")
        case True
        with "1.prems" Inl show ?thesis by (subst (asm) retryLoop.simps) simp
      next
        case False
        with "1.prems" Inl le obtain effects' where
          "retryLoop body net data retries (attempt + 1) = (Inr (Some r), effects')"
          by (subst (asm) retryLoop.simps) (auto split: prod.splits)
        with "1.IH" [OF le Inl False] show ?thesis by blast
      qed
    qed
  qed
qed

lemma retryLoop_fetches_data:
  "Fetch d \<in> set (snd (retryLoop body net data retries attempt)) \<Longrightarrow> d = data"
proof (induction body net data retries attempt rule: retryLoop.induct)
  case (1 body net data retries attempt)
  show ?case
  proof (cases "attempt \<le> retries")
    case False
    with "1.prems" show ?thesis by (subst (asm) retryLoop.simps) simp
  next
    case le: True
    show ?thesis
    proof (cases "body (net attempt)")
      case (Inr x)
      with "1.prems" le show ?thesis by (subst (asm) retryLoop.simps) simp
    next
      case (Inl e)
      show ?thesis
      proof (cases "attempt = retries")
        case True
        with "1.prems" Inl show ?thesis by (subst (asm) retryLoop.simps) simp
      next
        case False
        with "1.prems" Inl le have
          "Fetch d \<in> set (snd (retryLoop body net data retries (attempt + 1))) \<or> d = data"
          by (subst (asm) retryLoop.simps) (auto split: prod.splits)
        with "1.IH" [OF le Inl False] show ?thesis by blast
      qed
    qed
  qed
qed

subsection \<open>Simplifying the response\<close>

lemma getProperty_property:
  "item \<noteq> JNull \<Longrightarrow> getProperty item name = Inr (property item name)"
  by (cases item) (simp_all add: property_def)

lemma simplifyItem_A_readable:
  assumes "readable item"
  shows "simplifyItem_A item = Inr (expectedSimplified item)"
proof -
  from assms have nn: "item \<noteq> JNull" by (simp add: readable_def)
  show ?thesis
  proof (cases "truthyJ (property item ''error'')")
    case True
    then obtain e where e: "property item ''error'' = Some e" by (cases "property item ''error''") simp_all
    with True show ?thesis
      by (simp add: simplifyItem_A_def getProperty_property [OF nn] expectedSimplified_def)
  next
    case False
    with assms have pr: "property item ''postResponse'' \<noteq> Some JNull" by (simp add: readable_def)
    show ?thesis
    proof (cases "property item ''postResponse''")
      case None
      with False show ?thesis
        by (auto simp: simplifyItem_A_def summarize_def getProperty_property [OF nn]
            expectedSimplified_def orElse_def Let_def split: option.splits)
    next
      case (Some p)
      with pr have "p \<noteq> JNull" by simp
      with False Some show ?thesis
        by (auto simp: simplifyItem_A_def summarize_def getProperty_property expectedSimplified_def nn
            Let_def split: option.splits)
    qed
  qed
qed

lemma simplifyItem_A_unreadable:
  assumes "\<not> readable item"
  shows "isl (simplifyItem_A item)"
proof (cases "item = JNull")
  case True
  then show ?thesis by (simp add: simplifyItem_A_def)
next
  case False
  with assms have "\<not> truthyJ (property item ''error'')" and "property item ''postResponse'' = Some JNull"
    by (simp_all add: readable_def)
  then show ?thesis
    by (auto simp: simplifyItem_A_def summarize_def getProperty_property [OF False] split: option.splits)
qed

lemma getProperty_error: "getProperty v name = Inl e \<Longrightarrow> e = TypeError"
  by (cases v) simp_all

lemma summarize_error: "summarize pr = Inl e \<Longrightarrow> e = TypeError"
  by (auto simp: summarize_def Let_def split: sum.splits dest: getProperty_error)

lemma simplifyItem_A_error: "simplifyItem_A item = Inl e \<Longrightarrow> e = TypeError"
  by (auto simp: simplifyItem_A_def split: sum.splits option.splits if_splits
      dest: getProperty_error summarize_error)

lemma mapE_error: "mapE f xs = Inl e \<Longrightarrow> \<exists>x \<in> set xs. f x = Inl e"
  by (induction xs) (auto split: sum.splits)

lemma mapE_all:
  "list_all (\<lambda>x. f x = Inr (g x)) xs \<Longrightarrow> mapE f xs = Inr (map g xs)"
  by (induction xs) simp_all

lemma mapE_Inr:
  "mapE f xs = Inr ys \<Longrightarrow> list_all2 (\<lambda>x y. f x = Inr y) xs ys"
  by (induction xs arbitrary: ys) (auto split: sum.splits)

lemma simplifyPostResponses_A_nonempty:
  "simplifyPostResponses_A v = Inr out \<Longrightarrow> out \<noteq> []"
proof (cases v)
  case (JArray items)
  assume r: "simplifyPostResponses_A v = Inr out"
  show ?thesis
  proof (cases "items = []")
    case True
    with r JArray show ?thesis by (auto simp: simplifyPostResponses_A_def)
  next
    case False
    with r JArray have "mapE simplifyItem_A items = Inr out"
      by (simp add: simplifyPostResponses_A_def)
    then have "length items = length out"
      using mapE_Inr list_all2_lengthD by blast
    with False show ?thesis by auto
  qed
qed (auto simp: simplifyPostResponses_A_def)

lemma structuredResponse_A_results:
  assumes "jsonResponse \<noteq> JNull"
  shows "structuredResponse simplifyPostResponses_A jsonResponse =
     (case simplifyPostResponses_A (orElse (property jsonResponse ''results'') (JArray [])) of
        Inl e \<Rightarrow> Inl e
      | Inr simple \<Rightarrow>
          Inr \<lparr> response_status = orElse (property jsonResponse ''status'') (JString ''success''),
                response_message = orElse (property jsonResponse ''message'') (JString ''No message provided''),
                execution_time = orElse (property jsonResponse ''execution_time'') (JString ''N/A''),
                results = simple \<rparr>)"
  by (simp add: structuredResponse_def getProperty_property [OF assms])

lemma structuredResponse_A_nonempty:
  assumes "structuredResponse simplifyPostResponses_A jsonResponse = Inr sub"
  shows "results sub \<noteq> []"
proof -
  have nn: "jsonResponse \<noteq> JNull"
    using assms by (auto simp: structuredResponse_def)
  from assms obtain simple where s: "simplifyPostResponses_A (orElse (property jsonResponse ''results'') (JArray [])) = Inr simple"
    and r: "results sub = simple"
    unfolding structuredResponse_A_results [OF nn] by (auto split: sum.splits)
  from s have "simple \<noteq> []" by (rule simplifyPostResponses_A_nonempty)
  with r show ?thesis by simp
qed

lemma tryBody_A_nonempty:
  assumes "tryBody_A parse outcome = Inr sub"
  shows "results sub \<noteq> []"
  using assms
  by (auto simp: tryBody_A_def structuredResponse_A_nonempty split: fetch_outcome.splits sum.splits if_splits)

lemma not_array_simplified:
  assumes "\<not> isNonEmptyArray rs"
  shows "simplifyPostResponses_A (orElse rs (JArray [])) = Inr [noValidResponses]"
proof (cases rs)
  case None
  then show ?thesis by (simp add: orElse_def simplifyPostResponses_A_def noValidResponses_def)
next
  case (Some v)
  show ?thesis
  proof (cases v)
    case (JArray items)
    with assms Some have "items = []" by (cases items) (simp_all add: isNonEmptyArray_def)
    with Some JArray show ?thesis
      by (simp add: orElse_def simplifyPostResponses_A_def noValidResponses_def)
  qed (use Some in \<open>simp_all add: orElse_def simplifyPostResponses_A_def noValidResponses_def\<close>)
qed

text \<open>When an attempt fails and when it returns.\<close>

lemma tryBody_A_rejected: "tryBody_A parse (Rejected e) = Inl e"
  by (simp add: tryBody_A_def)

lemma tryBody_A_not_ok:
  "tryBody_A parse (Responded False code (Inr raw)) = Inl (HttpError code raw)
   \<and> isl (tryBody_A parse (Responded False code body))"
  by (cases body) (simp_all add: tryBody_A_def)

lemma tryBody_B_rejected: "tryBody_B parse (Rejected e) = Inl e"
  by (simp add: tryBody_B_def)

lemma tryBody_B_not_ok:
  "tryBody_B parse (Responded False code (Inr raw)) = Inl (HttpError code raw)
   \<and> isl (tryBody_B parse (Responded False code body))"
  by (cases body) (simp_all add: tryBody_B_def)

lemma tryBody_A_returns:
  "tryBody_A parse outcome = Inr r \<longleftrightarrow>
     (\<exists>code raw jsonResponse. outcome = Responded True code (Inr raw) \<and> parse raw = Inr jsonResponse
        \<and> structuredResponse simplifyPostResponses_A jsonResponse = Inr r)"
  by (auto simp: tryBody_A_def split: fetch_outcome.splits sum.splits if_splits)

lemma tryBody_B_returns:
  "tryBody_B parse outcome = Inr r \<longleftrightarrow>
     (\<exists>code raw jsonResponse. outcome = Responded True code (Inr raw) \<and> parse raw = Inr jsonResponse
        \<and> structuredResponse simplifyPostResponses_B jsonResponse = Inr r)"
  by (auto simp: tryBody_B_def split: fetch_outcome.splits sum.splits if_splits)

subsection \<open>The claims about the Submission Client\<close>

text \<open>
  Claim C1, as amended. Variant A, called with an empty record list, fails with the
  error "No valid data to send to submit route" and performs no effect at all: it issues
  a request only if the list is non-empty, and every request carries the whole list.
  (Variants B and C have no such test: they send the empty list.)
\<close>

theorem empty_input_rejected:
  "postToSubmitRoute_A parse net [] retries = (Inl (Error ''No valid data to send to submit route''), [])
   \<and> (Fetch d \<in> set (snd (postToSubmitRoute_A parse net data retries)) \<longrightarrow> data \<noteq> [] \<and> d = data)"
  using retryLoop_fetches_data [of d "tryBody_A parse" net data retries 1]
  by (simp add: postToSubmitRoute_A_def)

theorem empty_input_rejected_witness:
  "postToSubmitRoute_A (constParse (JObject [])) refusingNetwork [] defaultRetries
     = (Inl (Error ''No valid data to send to submit route''), [])
   \<and> Fetch [sampleShipment] \<in> set (snd (postToSubmitRoute_A (constParse (JObject [])) refusingNetwork [sampleShipment] defaultRetries))
   \<and> [sampleShipment] \<noteq> []"
proof -
  have "Fetch [sampleShipment] \<in> set (snd (postToSubmitRoute_A (constParse (JObject [])) refusingNetwork [sampleShipment] defaultRetries))"
    by code_simp
  then show ?thesis
    using empty_input_rejected [of "constParse (JObject [])" refusingNetwork defaultRetries "[sampleShipment]" "[sampleShipment]"]
    by simp
qed

theorem empty_input_rejected_counterexample:
  "postToSubmitRoute_B (constParse (JObject [])) refusingNetwork [] defaultRetries
     = (Inl (Error ''connect ECONNREFUSED''),
        [Fetch [], Sleep 1000, Fetch [], Sleep 2000, Fetch []])
   \<and> postToSubmitRoute_C (constParse (JObject [])) refusingNetwork []
     = (Inl (Error ''connect ECONNREFUSED''), [Fetch []])"
  by code_simp


text \<open>
  Claim C7, as amended. In variants A and B an attempt fails when the \<open>fetch\<close> is
  rejected, when the response is not ok, when its body cannot be read or is not a JSON
  text, or when building the structured response throws; it returns only for an ok
  response whose body parses and whose structured response is built. So an attempt
  that the remote side answered with a success status can fail and be sent again.
  With a maximum of at least one attempt (3 by default), the loop ends with the first
  attempt \<open>k\<close> that returns, or with attempt number \<open>retries\<close> when all fail: the
  promise settles to the result of that attempt (the structured response, or the last
  error and no result), one request was issued per attempt, and after each failed
  attempt \<open>i < k\<close> the client waited \<open>i * 1000\<close> ms. For variant A the record list
  is non-empty. (Variant C makes one attempt and never retries.)
\<close>

theorem retry_until_success_or_exhaustion:
  assumes "1 \<le> k" and "k \<le> retries"
  shows "(data \<noteq> []
          \<and> list_all (\<lambda>i. isl (tryBody_A parse (net i))) [1..k - 1]
          \<and> (k = retries \<or> \<not> isl (tryBody_A parse (net k)))
          \<longrightarrow> postToSubmitRoute_A parse net data retries
               = (lastAttempt (tryBody_A parse (net k)), attemptsTrace data k))
       \<and> (list_all (\<lambda>i. isl (tryBody_B parse (net i))) [1..k - 1]
          \<and> (k = retries \<or> \<not> isl (tryBody_B parse (net k)))
          \<longrightarrow> postToSubmitRoute_B parse net data retries
               = (lastAttempt (tryBody_B parse (net k)), attemptsTrace data k))
       \<and> tryBody_A parse (Rejected e) = Inl e
       \<and> tryBody_A parse (Responded False code (Inr raw)) = Inl (HttpError code raw)
       \<and> isl (tryBody_A parse (Responded False code body))
       \<and> tryBody_B parse (Rejected e) = Inl e
       \<and> tryBody_B parse (Responded False code (Inr raw)) = Inl (HttpError code raw)
       \<and> isl (tryBody_B parse (Responded False code body))
       \<and> (tryBody_A parse outcome = Inr r \<longleftrightarrow>
            (\<exists>code raw jsonResponse. outcome = Responded True code (Inr raw) \<and> parse raw = Inr jsonResponse
               \<and> structuredResponse simplifyPostResponses_A jsonResponse = Inr r))
       \<and> (tryBody_B parse outcome = Inr r \<longleftrightarrow>
            (\<exists>code raw jsonResponse. outcome = Responded True code (Inr raw) \<and> parse raw = Inr jsonResponse
               \<and> structuredResponse simplifyPostResponses_B jsonResponse = Inr r))"
proof -
  have a: "data \<noteq> []
          \<and> list_all (\<lambda>i. isl (tryBody_A parse (net i))) [1..k - 1]
          \<and> (k = retries \<or> \<not> isl (tryBody_A parse (net k)))
          \<longrightarrow> postToSubmitRoute_A parse net data retries
               = (lastAttempt (tryBody_A parse (net k)), attemptsTrace data k)"
    using retryLoop_stops [OF assms, of "tryBody_A parse" net data]
    by (simp add: postToSubmitRoute_A_def)
  have b: "list_all (\<lambda>i. isl (tryBody_B parse (net i))) [1..k - 1]
          \<and> (k = retries \<or> \<not> isl (tryBody_B parse (net k)))
          \<longrightarrow> postToSubmitRoute_B parse net data retries
               = (lastAttempt (tryBody_B parse (net k)), attemptsTrace data k)"
    using retryLoop_stops [OF assms, of "tryBody_B parse" net data]
    by (simp add: postToSubmitRoute_B_def)
  show ?thesis
    using a b tryBody_A_rejected [of parse e] tryBody_A_not_ok [of parse code raw body]
      tryBody_B_rejected [of parse e] tryBody_B_not_ok [of parse code raw body]
      tryBody_A_returns [of parse outcome r] tryBody_B_returns [of parse outcome r]
    by (intro conjI) blast+
qed

theorem retry_until_success_or_exhaustion_witness:
  "postToSubmitRoute_A (constParse (JObject [])) refusingNetwork [sampleShipment] defaultRetries
     = (Inl (Error ''connect ECONNREFUSED''),
        [Fetch [sampleShipment], Sleep 1000, Fetch [sampleShipment], Sleep 2000, Fetch [sampleShipment]])
   \<and> postToSubmitRoute_B (constParse (JObject [])) refusingNetwork [sampleShipment] defaultRetries
     = (Inl (Error ''connect ECONNREFUSED''),
        [Fetch [sampleShipment], Sleep 1000, Fetch [sampleShipment], Sleep 2000, Fetch [sampleShipment]])
   \<and> postToSubmitRoute_A unparsable okNetwork [sampleShipment] defaultRetries
     = (Inl (SyntaxError ''Unexpected token''),
        [Fetch [sampleShipment], Sleep 1000, Fetch [sampleShipment], Sleep 2000, Fetch [sampleShipment]])"
proof -
  have k: "(1::int) \<le> 3" "(3::int) \<le> defaultRetries" by (simp_all add: defaultRetries_def)
  have d: "[sampleShipment] \<noteq> []" by simp
  have fa: "list_all (\<lambda>i. isl (tryBody_A (constParse (JObject [])) (refusingNetwork i))) [1..3 - 1]"
    by (simp add: tryBody_A_def refusingNetwork_def list_all_iff)
  have fb: "list_all (\<lambda>i. isl (tryBody_B (constParse (JObject [])) (refusingNetwork i))) [1..3 - 1]"
    by (simp add: tryBody_B_def refusingNetwork_def list_all_iff)
  have fc: "list_all (\<lambda>i. isl (tryBody_A unparsable (okNetwork i))) [1..3 - 1]"
    by (simp add: tryBody_A_def okNetwork_def unparsable_def list_all_iff)
  have r: "(3::int) = defaultRetries" by (simp add: defaultRetries_def)
  have la: "lastAttempt (tryBody_A (constParse (JObject [])) (refusingNetwork 3)) = Inl (Error ''connect ECONNREFUSED'')"
    by (simp add: lastAttempt_def tryBody_A_def refusingNetwork_def)
  have lb: "lastAttempt (tryBody_B (constParse (JObject [])) (refusingNetwork 3)) = Inl (Error ''connect ECONNREFUSED'')"
    by (simp add: lastAttempt_def tryBody_B_def refusingNetwork_def)
  have lc: "lastAttempt (tryBody_A unparsable (okNetwork 3)) = Inl (SyntaxError ''Unexpected token'')"
    by (simp add: lastAttempt_def tryBody_A_def okNetwork_def unparsable_def)
  have tr: "attemptsTrace [sampleShipment] 3
     = [Fetch [sampleShipment], Sleep 1000, Fetch [sampleShipment], Sleep 2000, Fetch [sampleShipment]]"
    by code_simp
  have 1: "postToSubmitRoute_A (constParse (JObject [])) refusingNetwork [sampleShipment] defaultRetries
     = (Inl (Error ''connect ECONNREFUSED''),
        [Fetch [sampleShipment], Sleep 1000, Fetch [sampleShipment], Sleep 2000, Fetch [sampleShipment]])"
   and 2: "postToSubmitRoute_B (constParse (JObject [])) refusingNetwork [sampleShipment] defaultRetries
     = (Inl (Error ''connect ECONNREFUSED''),
        [Fetch [sampleShipment], Sleep 1000, Fetch [sampleShipment], Sleep 2000, Fetch [sampleShipment]])"
    using retry_until_success_or_exhaustion [OF k, of "[sampleShipment]" "constParse (JObject [])" refusingNetwork]
      d fa fb r la lb tr
    by simp_all
  have 3: "postToSubmitRoute_A unparsable okNetwork [sampleShipment] defaultRetries
     = (Inl (SyntaxError ''Unexpected token''),
        [Fetch [sampleShipment], Sleep 1000, Fetch [sampleShipment], Sleep 2000, Fetch [sampleShipment]])"
    using retry_until_success_or_exhaustion [OF k, of "[sampleShipment]" unparsable okNetwork]
      d fc r lc tr
    by simp
  from 1 2 3 show ?thesis by simp
qed

theorem retry_until_success_or_exhaustion_counterexample:
  "postToSubmitRoute_C (constParse (JObject [])) refusingNetwork [sampleShipment]
     = (Inl (Error ''connect ECONNREFUSED''), [Fetch [sampleShipment]])"
  by code_simp


text \<open>
  Claim C8, as amended. In variant A, for a non-empty \<open>results\<close> array whose elements
  can all be taken apart (none is \<open>null\<close>, and each has a truthy \<open>error\<close> or a
  \<open>postResponse\<close> that is not \<open>null\<close>), every element is simplified, in order, to a
  record of \<open>status\<close> and \<open>message\<close>: an element with a truthy \<open>error\<close> gives
  status "error" and that error as message; any other element gives the status and
  message of its \<open>postResponse\<close>, with "unknown" and "No message provided" for a
  missing or falsy one. An array with an element that cannot be taken apart makes the
  attempt fail with a TypeError.
  (Variants B and C have no rule for \<open>error\<close>.)
\<close>

theorem simplified_items:
  assumes "items \<noteq> []"
  shows "(list_all readable items \<longrightarrow>
            simplifyPostResponses_A (JArray items) = Inr (map expectedSimplified items))
       \<and> (\<not> list_all readable items \<longrightarrow> simplifyPostResponses_A (JArray items) = Inl TypeError)"
proof (intro conjI impI)
  assume "list_all readable items"
  then have "list_all (\<lambda>x. simplifyItem_A x = Inr (expectedSimplified x)) items"
    by (simp add: list_all_iff simplifyItem_A_readable)
  then show "simplifyPostResponses_A (JArray items) = Inr (map expectedSimplified items)"
    using assms by (simp add: simplifyPostResponses_A_def mapE_all)
next
  assume "\<not> list_all readable items"
  then obtain x where x: "x \<in> set items" "\<not> readable x" by (auto simp: list_all_iff)
  have "isl (mapE simplifyItem_A items)"
  proof (rule ccontr)
    assume "\<not> isl (mapE simplifyItem_A items)"
    then obtain ys where "mapE simplifyItem_A items = Inr ys"
      by (cases "mapE simplifyItem_A items") simp_all
    then have "list_all2 (\<lambda>x y. simplifyItem_A x = Inr y) items ys" by (rule mapE_Inr)
    with x(1) obtain y where "simplifyItem_A x = Inr y"
      by (auto simp: list_all2_conv_all_nth in_set_conv_nth)
    with simplifyItem_A_unreadable [OF x(2)] show False by simp
  qed
  then obtain e where e: "mapE simplifyItem_A items = Inl e"
    by (cases "mapE simplifyItem_A items") simp_all
  then obtain y where "simplifyItem_A y = Inl e" using mapE_error by blast
  then have "e = TypeError" by (rule simplifyItem_A_error)
  with e show "simplifyPostResponses_A (JArray items) = Inl TypeError"
    using assms by (simp add: simplifyPostResponses_A_def)
qed

theorem simplified_items_witness:
  "simplifyPostResponses_A
     (JArray [JObject [(''postResponse'', JObject [(''status'', JString ''success''), (''message'', JString ''Shipped'')])],
              JObject [(''postResponse'', JObject [])],
              JObject [],
              JObject [(''error'', JString ''Order not found'')]])
   = Inr [\<lparr> status = JString ''success'', message = JString ''Shipped'' \<rparr>,
          \<lparr> status = JString ''unknown'', message = JString ''No message provided'' \<rparr>,
          \<lparr> status = JString ''unknown'', message = JString ''No message provided'' \<rparr>,
          \<lparr> status = JString ''error'', message = JString ''Order not found'' \<rparr>]
   \<and> simplifyPostResponses_A (JArray [JNull]) = Inl TypeError"
proof -
  let ?items = "[JObject [(''postResponse'', JObject [(''status'', JString ''success''), (''message'', JString ''Shipped'')])],
              JObject [(''postResponse'', JObject [])],
              JObject [],
              JObject [(''error'', JString ''Order not found'')]]"
  have 1: "?items \<noteq> []" by simp
  have 2: "list_all readable ?items" by code_simp
  have 3: "map expectedSimplified ?items
     = [\<lparr> status = JString ''success'', message = JString ''Shipped'' \<rparr>,
          \<lparr> status = JString ''unknown'', message = JString ''No message provided'' \<rparr>,
          \<lparr> status = JString ''unknown'', message = JString ''No message provided'' \<rparr>,
          \<lparr> status = JString ''error'', message = JString ''Order not found'' \<rparr>]" by code_simp
  have 4: "[JNull] \<noteq> []" by simp
  have 5: "\<not> list_all readable [JNull]" by code_simp
  show ?thesis
    using simplified_items [OF 1] simplified_items [OF 4] 2 3 5 by simp
qed

theorem simplified_items_counterexample:
  "simplifyPostResponses_B (JArray [JObject [(''error'', JString ''Order not found'')]])
     = Inr [\<lparr> status = JString ''unknown'', message = JString ''No message provided'' \<rparr>]
   \<and> simplifyPostResponses_A (JArray [JObject [(''postResponse'', JObject [(''status'', JString ''success'')])], JNull])
     = Inl TypeError"
  by code_simp


text \<open>
  Claim C9. In variant A, the code the claim is drawn from (lines 194-199 and 166-171):
  when the \<open>results\<close> of the parsed response is absent, empty or not an array, the
  \<open>results\<close> of the Submission Result is the one record with status "error" and
  message "No valid responses received" (a Submission Result exists whenever the parsed
  response is not \<open>null\<close>); and whenever variant A resolves with a Submission
  Result, its \<open>results\<close> list is non-empty.
\<close>

theorem no_valid_responses:
  "(parse raw = Inr jsonResponse \<and> jsonResponse \<noteq> JNull
      \<and> \<not> isNonEmptyArray (property jsonResponse ''results'')
      \<longrightarrow> (\<exists>sub. tryBody_A parse (Responded True code (Inr raw)) = Inr sub
                 \<and> results sub = [noValidResponses]))
   \<and> (parse raw = Inr jsonResponse
      \<and> \<not> isNonEmptyArray (property jsonResponse ''results'')
      \<and> tryBody_A parse (Responded True code (Inr raw)) = Inr sub'
      \<longrightarrow> results sub' = [noValidResponses])
   \<and> (postToSubmitRoute_A parse net data retries = (Inr (Some sub), effects)
      \<longrightarrow> results sub \<noteq> [])"
proof (intro conjI impI)
  assume a: "parse raw = Inr jsonResponse \<and> jsonResponse \<noteq> JNull
      \<and> \<not> isNonEmptyArray (property jsonResponse ''results'')"
  then have nn: "jsonResponse \<noteq> JNull"
    and na: "\<not> isNonEmptyArray (property jsonResponse ''results'')" by simp_all
  show "\<exists>sub. tryBody_A parse (Responded True code (Inr raw)) = Inr sub
                 \<and> results sub = [noValidResponses]"
    using a by (simp add: tryBody_A_def structuredResponse_A_results [OF nn] not_array_simplified [OF na])
next
  assume a: "parse raw = Inr jsonResponse
      \<and> \<not> isNonEmptyArray (property jsonResponse ''results'')
      \<and> tryBody_A parse (Responded True code (Inr raw)) = Inr sub'"
  then have p: "parse raw = Inr jsonResponse"
    and na: "\<not> isNonEmptyArray (property jsonResponse ''results'')"
    and t: "tryBody_A parse (Responded True code (Inr raw)) = Inr sub'" by simp_all
  from t p have s: "structuredResponse simplifyPostResponses_A jsonResponse = Inr sub'"
    by (simp add: tryBody_A_def)
  then have nn: "jsonResponse \<noteq> JNull" by (auto simp: structuredResponse_def)
  from s show "results sub' = [noValidResponses]"
    unfolding structuredResponse_A_results [OF nn] not_array_simplified [OF na] by auto
next
  assume r: "postToSubmitRoute_A parse net data retries = (Inr (Some sub), effects)"
  then have "retryLoop (tryBody_A parse) net data retries 1 = (Inr (Some sub), effects)"
    by (simp add: postToSubmitRoute_A_def split: if_splits)
  then obtain i where "tryBody_A parse (net i) = Inr sub"
    using retryLoop_result by blast
  then show "results sub \<noteq> []" by (rule tryBody_A_nonempty)
qed


theorem no_valid_responses_witness:
  "tryBody_A (constParse (JObject [(''status'', JString ''success'')])) (Responded True 200 (Inr ''(body)''))
     = Inr \<lparr> response_status = JString ''success'', response_message = JString ''No message provided'',
             execution_time = JString ''N/A'', results = [noValidResponses] \<rparr>
   \<and> postToSubmitRoute_A (constParse (JObject [(''status'', JString ''success'')])) okNetwork [sampleShipment] defaultRetries
     = (Inr (Some \<lparr> response_status = JString ''success'', response_message = JString ''No message provided'',
             execution_time = JString ''N/A'', results = [noValidResponses] \<rparr>), [Fetch [sampleShipment]])
   \<and> [noValidResponses] \<noteq> []"
proof -
  let ?doc = "JObject [(''status'', JString ''success'')]"
  let ?sub = "\<lparr> response_status = JString ''success'', response_message = JString ''No message provided'',
             execution_time = JString ''N/A'', results = [noValidResponses] \<rparr>"
  have 1: "constParse ?doc ''(body)'' = Inr ?doc" by (simp add: constParse_def)
  have 2: "?doc \<noteq> JNull" by simp
  have 3: "\<not> isNonEmptyArray (property ?doc ''results'')" by code_simp
  have 4: "tryBody_A (constParse ?doc) (Responded True 200 (Inr ''(body)'')) = Inr ?sub" by code_simp
  have 5: "postToSubmitRoute_A (constParse ?doc) okNetwork [sampleShipment] defaultRetries
     = (Inr (Some ?sub), [Fetch [sampleShipment]])" by code_simp
  show ?thesis
    using no_valid_responses [where parse = "constParse ?doc" and raw = "''(body)''" and jsonResponse = ?doc
        and code = 200 and net = okNetwork and data = "[sampleShipment]" and retries = defaultRetries
        and sub = ?sub and sub' = ?sub and effects = "[Fetch [sampleShipment]]"] 1 2 3 4 5
    by simp
qed

text \<open>
  Variants B and C, which the claim does not cite, have no such guard: an absent
  \<open>results\<close> gives an empty list there.
\<close>

lemma results_empty_in_variants_B_C:
  "postToSubmitRoute_B (constParse (JObject [(''status'', JString ''success'')])) okNetwork [sampleShipment] defaultRetries
     = (Inr (Some \<lparr> response_status = JString ''success'', response_message = JString ''No message provided'',
             execution_time = JString ''N/A'', results = [] \<rparr>), [Fetch [sampleShipment]])
   \<and> postToSubmitRoute_C (constParse (JObject [(''status'', JString ''success'')])) okNetwork [sampleShipment]
     = (Inr (Some \<lparr> response_status = JString ''success'', response_message = JString ''No message provided'',
             execution_time = JString ''N/A'', results = [] \<rparr>), [Fetch [sampleShipment]])"
  by code_simp


section \<open>Properties of the lookup tables\<close>

text \<open>
  For a key that is not the name of an inherited property, both lookups are the
  tables of the specification, with the raw value when the key is not in the table.
\<close>

lemma objectPrototypeGet_own:
  "\<not> inheritedName name \<Longrightarrow> objectPrototypeGet name = JSUndefined"
  by (simp add: inheritedName_def objectPrototypeGet_def objectPrototypeFunctions_def)

lemma shipmentMethodMap_lookup:
  "map_of shipmentMethodMap code =
     (if code = ''G'' then Some ''Ground''
      else if code = ''3RD'' then Some ''3 Day Select''
      else if code = ''2ND'' then Some ''2nd Day Air''
      else None)"
  by (simp add: shipmentMethodMap_def)

lemma storeIdMap_lookup:
  "map_of storeIdMap customer =
     (if customer = ''RTSCS'' then Some ''68125''
      else if customer = ''RTFMS'' then Some ''118741''
      else if customer = ''HERO'' then Some ''14077''
      else None)"
  by (simp add: storeIdMap_def)

lemma shipment_method_table:
  assumes "shippedViaParts item = (carrier, code)" and "\<not> inheritedName code"
  shows "carrier_code (shipmentOf item n) = carrier
       \<and> shipment_method (shipmentOf item n) = JSString (expectedMethod code)"
  using assms
  by (simp add: shipmentOf_def literalGet_def shipmentMethodMap_lookup objectPrototypeGet_own
      js_or_def expectedMethod_def Let_def)

lemma store_id_table:
  assumes "item ''Customer_Number'' = Some customer" and "\<not> inheritedName customer"
  shows "source_id (shipmentOf item n) = expectedStoreId customer @ ''-'' @ n"
  using assms
  by (simp add: shipmentOf_def literalGet_def storeIdMap_lookup objectPrototypeGet_own
      js_or_def expectedStoreId_def field_def split_beta Let_def)

lemma shipped_via_examples:
  "shippedViaParts [''Shipped_VIA'' \<mapsto> ''UPS - G''] = (''UPS'', ''G'')
   \<and> shippedViaParts [''Shipped_VIA'' \<mapsto> ''''] = ('''', '''')
   \<and> shippedViaParts Map.empty = ('''', '''')"
  by code_simp

lemma store_id_examples:
  "formatCannonHillData_B [[''Cust_PO_Number'' \<mapsto> ''12345/1'', ''Customer_Number'' \<mapsto> ''RTSCS'']]
     = Inr [\<lparr> source_id = ''68125-12345'', tracking_number = JSUndefined,
              carrier_code = [], shipment_method = JSString ''Residential'' \<rparr>]
   \<and> formatCannonHillData_B [[''Cust_PO_Number'' \<mapsto> ''12345/1'', ''Customer_Number'' \<mapsto> ''UNKNOWN1'']]
     = Inr [\<lparr> source_id = ''UNKNOWN1-12345'', tracking_number = JSUndefined,
              carrier_code = [], shipment_method = JSString ''Residential'' \<rparr>]"
  by code_simp

text \<open>
  Claim C4. The claim says an unrecognized method code passes through unchanged. For
  \<open>Shipped_VIA = "UPS - constructor"\<close> every variant reads
  \<open>shipmentMethodMap["constructor"]\<close>, which is the function \<open>Object\<close> inherited
  from \<open>Object.prototype\<close>, a truthy value: the record's \<open>shipment_method\<close> is
  that function and not the string "constructor".
\<close>

theorem shipment_method_inherited:
  "formatCannonHillData_A
     [[''Cust_PO_Number'' \<mapsto> ''12345/1'', ''Customer_Number'' \<mapsto> ''RTSCS'',
       ''Tracking_Number'' \<mapsto> ''1Z999'', ''Shipped_VIA'' \<mapsto> ''UPS - constructor'']]
     = Inr [\<lparr> source_id = ''68125-12345'', tracking_number = JSString ''1Z999'',
              carrier_code = ''UPS'', shipment_method = JSNative ''Object'' \<rparr>]
   \<and> formatCannonHillData_B
     [[''Cust_PO_Number'' \<mapsto> ''12345/1'', ''Customer_Number'' \<mapsto> ''RTSCS'',
       ''Tracking_Number'' \<mapsto> ''1Z999'', ''Shipped_VIA'' \<mapsto> ''UPS - constructor'']]
     = Inr [\<lparr> source_id = ''68125-12345'', tracking_number = JSString ''1Z999'',
              carrier_code = ''UPS'', shipment_method = JSNative ''Object'' \<rparr>]"
  by code_simp


text \<open>
  Claim C5. The claim says a customer number that is not in the table is used
  unchanged. For \<open>Customer_Number = "constructor"\<close> every variant reads
  \<open>storeIdMap["constructor"]\<close>, the inherited function \<open>Object\<close>, and the
  \<open>source_id\<close> starts with the text of that function and not with "constructor-".
\<close>

theorem store_id_inherited:
  "formatCannonHillData_A
     [[''Cust_PO_Number'' \<mapsto> ''12345/1'', ''Customer_Number'' \<mapsto> ''constructor'',
       ''Tracking_Number'' \<mapsto> ''1Z999'', ''Shipped_VIA'' \<mapsto> ''UPS - G'']]
     = Inr [\<lparr> source_id = ''function Object() { [native code] }-12345'', tracking_number = JSString ''1Z999'',
              carrier_code = ''UPS'', shipment_method = JSString ''Ground'' \<rparr>]
   \<and> formatCannonHillData_B
     [[''Cust_PO_Number'' \<mapsto> ''12345/1'', ''Customer_Number'' \<mapsto> ''constructor'',
       ''Tracking_Number'' \<mapsto> ''1Z999'', ''Shipped_VIA'' \<mapsto> ''UPS - G'']]
     = Inr [\<lparr> source_id = ''function Object() { [native code] }-12345'', tracking_number = JSString ''1Z999'',
              carrier_code = ''UPS'', shipment_method = JSString ''Ground'' \<rparr>]"
  by code_simp


section \<open>Properties of the CSV Normalizer\<close>

text \<open>
  The \<open>forEach\<close> of lines 69-73: the keys of the row are the rewritten names other
  than \<open>__proto__\<close>; every value of the row is the value of a property with that
  rewritten name, and it is the value of the last such property.
\<close>

lemma normalizedData_snoc:
  "normalizedData (data @ [(key, v)]) = setProperty (normalizedData data) (normalizeKey key) v"
  by (simp add: normalizedData_def)

lemma normalizedData_dom:
  "dom (normalizedData data) = (\<lambda>(key, v). normalizeKey key) ` set data - {''__proto__''}"
proof (induction data rule: rev_induct)
  case Nil
  show ?case by (simp add: normalizedData_def)
next
  case (snoc kv data)
  obtain key v where kv: "kv = (key, v)" by (cases kv)
  show ?case
    unfolding kv normalizedData_snoc using snoc
    by (auto simp: setProperty_def)
qed

lemma normalizedData_value:
  "normalizedData data name = Some v \<Longrightarrow> \<exists>key. (key, v) \<in> set data \<and> normalizeKey key = name"
proof (induction data rule: rev_induct)
  case Nil
  then show ?case by (simp add: normalizedData_def)
next
  case (snoc kv data)
  obtain key w where kv: "kv = (key, w)" by (cases kv)
  from snoc.prems show ?case
    unfolding kv normalizedData_snoc
    using snoc.IH by (auto simp: setProperty_def split: if_splits)
qed

lemma normalizedData_last_wins:
  assumes "normalizeKey key \<noteq> ''__proto__''"
    and "\<forall>(key', v') \<in> set later. normalizeKey key' \<noteq> normalizeKey key"
  shows "normalizedData (earlier @ (key, v) # later) (normalizeKey key) = Some v"
  using assms(2)
proof (induction later rule: rev_induct)
  case Nil
  show ?case using assms(1) normalizedData_snoc [of earlier key v]
    by (simp add: setProperty_def)
next
  case (snoc kv later)
  obtain key' v' where kv: "kv = (key', v')" by (cases kv)
  from snoc.prems have ne: "normalizeKey key' \<noteq> normalizeKey key"
    and rest: "\<forall>(key', v') \<in> set later. normalizeKey key' \<noteq> normalizeKey key"
    unfolding kv by auto
  have "normalizedData ((earlier @ (key, v) # later) @ [(key', v')]) (normalizeKey key) = Some v"
    unfolding normalizedData_snoc using snoc.IH [OF rest] ne
    by (simp add: setProperty_def)
  then show ?case unfolding kv by simp
qed

text \<open>
  \<open>Object.keys\<close> only reorders the properties, so the same holds for the row made
  from an object; the objects of the parser have each name once.
\<close>

lemma set_objectEntries: "set (objectEntries obj) = set obj"
  by (auto simp: objectEntries_def)

lemma objectEntries_plain:
  "list_all (\<lambda>(k, v). \<not> isArrayIndex k) obj \<Longrightarrow> objectEntries obj = obj"
proof -
  assume a: "list_all (\<lambda>(k, v). \<not> isArrayIndex k) obj"
  then have "filter (\<lambda>(k, v). isArrayIndex k) obj = []"
    by (auto simp: list_all_iff filter_empty_conv)
  moreover from a have "filter (\<lambda>(k, v). \<not> isArrayIndex k) obj = obj"
    by (auto simp: list_all_iff filter_id_conv)
  ultimately show ?thesis by (simp add: objectEntries_def)
qed

lemma normalizedData_objectEntries_dom:
  "dom (normalizedData (objectEntries data)) = (\<lambda>(key, v). normalizeKey key) ` set data - {''__proto__''}"
  by (simp add: normalizedData_dom set_objectEntries)

lemma normalizedData_objectEntries_value:
  "normalizedData (objectEntries data) name = Some v \<Longrightarrow> \<exists>key. (key, v) \<in> set data \<and> normalizeKey key = name"
  using normalizedData_value [of "objectEntries data" name v] by (simp add: set_objectEntries)

lemma putProperty_in_place:
  "map fst (map (\<lambda>(k, w). if k = name then (k, v) else (k, w)) obj) = map fst obj"
  by (induction obj) (simp_all add: split_beta)

lemma putProperty_distinct:
  "distinct (map fst obj) \<Longrightarrow> distinct (map fst (putProperty obj name v))"
  unfolding putProperty_def
  by (simp add: putProperty_in_place del: map_map)

lemma rowObject_distinct: "distinct (map fst (rowObject headers cells))"
proof -
  have "distinct (map fst (foldl (\<lambda>obj (position, cell). putProperty obj (f position) cell) obj ps))"
    if "distinct (map fst obj)" for f :: "nat \<Rightarrow> string" and obj ps
    using that
  proof (induction ps arbitrary: obj)
    case Nil
    then show ?case by simp
  next
    case (Cons p ps)
    obtain position cell where p: "p = (position, cell)" by (cases p)
    have "distinct (map fst (putProperty obj (f position) cell))"
      using Cons.prems by (rule putProperty_distinct)
    then show ?case unfolding p using Cons.IH by simp
  qed
  then show ?thesis by (simp add: rowObject_def)
qed

text \<open>
  The promise is rejected with the parser's error; with the parser above it resolves
  with one row per line after the header line, in order. The examples run the header of
  the specification, a repeated column name, and quoted cells with CR LF line ends, a
  blank line and a last line without a line end.
\<close>

lemma parseCSVFromBuffer_error:
  "parser 4 buffer = Inl error \<Longrightarrow> parseCSVFromBuffer parser buffer = Inl error"
  by (simp add: parseCSVFromBuffer_def)

lemma parseCSVFromBuffer_rows:
  "parseCSVFromBuffer csvParser buffer =
     Inr (map (\<lambda>line. normalizedData (objectEntries (rowObject (csvCells (csvLines buffer ! 4)) (csvCells line))))
            (drop 5 (csvLines buffer)))"
proof -
  have d: "drop 5 (csvLines buffer) = drop 1 (drop 4 (csvLines buffer))" by simp
  show ?thesis
  proof (cases "drop 4 (csvLines buffer)")
    case Nil
    then show ?thesis unfolding d by (simp add: parseCSVFromBuffer_def csvParser_def)
  next
    case (Cons header dataLines)
    then have "csvLines buffer ! 4 = header"
      by (metis Cons_nth_drop_Suc drop_eq_Nil linorder_not_le list.distinct(1) list.inject)
    with Cons show ?thesis unfolding d by (simp add: parseCSVFromBuffer_def csvParser_def)
  qed
qed

lemma normalizeKey_example: "normalizeKey ''Cust PO-Number'' = ''Cust_PO_Number''"
  by code_simp

lemma end_to_end_example:
  "(case parseCSVFromBuffer csvParser
           (bannerLines @ ''Cust PO-Number,Shipped VIA,Customer Number,Tracking Number'' @ [CHR 0x0A]
              @ ''7890/2,UPS - 3RD,RTFMS,1Z999'' @ [CHR 0x0A]) of
      Inl error \<Rightarrow> Inl error
    | Inr rows \<Rightarrow> formatCannonHillData_B rows)
   = Inr [\<lparr> source_id = ''118741-7890'', tracking_number = JSString ''1Z999'',
            carrier_code = ''UPS'', shipment_method = JSString ''3 Day Select'' \<rparr>]"
  by code_simp

lemma repeated_column_example:
  "map_sum id (map (\<lambda>row. (row ''A_B'', row ''A B'', row ''A-B'')))
     (parseCSVFromBuffer csvParser (bannerLines @ ''A B,A-B,A B'' @ [CHR 0x0A] @ ''1,2,3'' @ [CHR 0x0A]))
   = Inr [(Some ''2'', None, None)]"
  by code_simp

lemma quoted_cells_example:
  "map_sum id (map (\<lambda>row. (row ''Cust_PO_Number'', row ''Shipped_VIA'', row ''Note'')))
     (parseCSVFromBuffer csvParser
        (bannerLines @ ''Cust PO-Number,Shipped VIA,Note'' @ [CHR 0x0D, CHR 0x0A]
           @ ''7890/2,'' @ [CHR 0x22] @ ''UPS - G'' @ [CHR 0x22] @ '','' @ [CHR 0x22] @ ''left, at door'' @ [CHR 0x22, CHR 0x0D, CHR 0x0A]
           @ [CHR 0x0D, CHR 0x0A]
           @ ''7891/1,FEDEX''))
   = Inr [(Some ''7890/2'', Some ''UPS - G'', Some ''left, at door''),
          (None, None, None),
          (Some ''7891/1'', Some ''FEDEX'', None)]"
  by code_simp


text \<open>
  Claim C6. The claim says every column name is rewritten and keeps its value. The
  column \<open>--proto--\<close> is rewritten to \<open>__proto__\<close>, and the assignment
  \<open>normalizedData["__proto__"] = value\<close> creates no property: the row has neither the
  old nor the new name, and the column's value is lost.
\<close>

theorem column_lost:
  "map (\<lambda>row. (row ''__proto__'', row ''--proto--'', row ''Cust_PO_Number''))
     [normalizedData [(''--proto--'', ''a''), (''Cust PO-Number'', ''7890/2'')]]
   = [(None, None, Some ''7890/2'')]
   \<and> map_sum id (map (\<lambda>row. (row ''__proto__'', row ''--proto--'', row ''Cust_PO_Number'')))
     (parseCSVFromBuffer csvParser (bannerLines @ ''--proto--,Cust PO-Number'' @ [CHR 0x0A] @ ''a,7890/2'' @ [CHR 0x0A]))
   = Inr [(None, None, Some ''7890/2'')]"
  by code_simp


end
